theory Spec2Isabelle
  imports Complex_Main "HOL-Library.Multiset" "HOL-Library.Sublist"
begin

section \<open>go-gist: data model\<close>

text \<open>
  The command line tool of \<^verbatim>\<open>main.go\<close>: it validates its flags, selects the files that
  exist and are small enough, and creates one gist per file, concurrently.

  Everything the program does besides computing values is recorded as an event in a trace,
  in program order: log lines, \<^verbatim>\<open>log.Fatal\<close>, the calls into the \<^verbatim>\<open>file\<close> package
  (which touch the filesystem or the network), and the channel and goroutine operations
  of \<^verbatim>\<open>processFiles\<close>.
\<close>

text \<open>A Go \<^verbatim>\<open>error\<close> is modelled by its message; \<^verbatim>\<open>nil\<close> is \<open>None\<close>.\<close>

type_synonym error = string

text \<open>
  Modelled from the spec: the type \<^verbatim>\<open>file.LocalFile\<close> and its constructor \<^verbatim>\<open>file.New\<close>
  live in the package \<^verbatim>\<open>file\<close>, whose source is missing. The spec
  gives the descriptor as \<^verbatim>\<open>{ path: string, dryRun: flag }\<close>, "created once per input
  path"; \<^verbatim>\<open>main.go\<close> reads the field \<^verbatim>\<open>FilePath\<close>.
\<close>

record LocalFile =
  FilePath :: string
  DryRun :: bool

text \<open>
  Modelled from the spec: \<^verbatim>\<open>file.New(path, dryRun)\<close>, missing with its package, builds the
  descriptor from the path and the flag.
\<close>

definition New :: "string \<Rightarrow> bool \<Rightarrow> LocalFile" where
  "New path dry = \<lparr>FilePath = path, DryRun = dry\<rparr>"

text \<open>
  What a call of \<^verbatim>\<open>Upload\<close> can do to the outside: describe the file, or make the
  remote create call.
\<close>

datatype uploadEffect = Describe | RemoteCreate

text \<open>Why \<^verbatim>\<open>flag.Parse()\<close> rejects a command line: the argument, or the name and the value.\<close>

datatype flagError = BadFlagSyntax string | NotDefined string | InvalidBool string string

datatype event =
    Usage                            \<comment> \<open>\<^verbatim>\<open>flag.Usage()\<close>\<close>
  | FlagFail flagError               \<comment> \<open>the error line \<^verbatim>\<open>flag.Parse()\<close> prints before the usage\<close>
  | Fatal string                     \<comment> \<open>\<^verbatim>\<open>log.Fatal(msg)\<close>: the message, then \<^verbatim>\<open>os.Exit(1)\<close>\<close>
  | Print string                     \<comment> \<open>\<^verbatim>\<open>log.Printf\<close> of a constant text\<close>
  | WarnNotFound string              \<comment> \<open>line 73: the path\<close>
  | WarnTooLarge string real real    \<comment> \<open>line 81: the path, the ceiling, the actual size\<close>
  | LogNameError error               \<comment> \<open>line 133: the error of \<^verbatim>\<open>Name()\<close>\<close>
  | ErrCreateFailed string           \<comment> \<open>line 137: the display name\<close>
  | CallExists LocalFile             \<comment> \<open>\<^verbatim>\<open>localFile.Exists()\<close>\<close>
  | CallSize LocalFile               \<comment> \<open>\<^verbatim>\<open>localFile.Size()\<close>\<close>
  | CallName LocalFile               \<comment> \<open>\<^verbatim>\<open>fi.f.Name()\<close>\<close>
  | CallUpload LocalFile             \<comment> \<open>\<^verbatim>\<open>f.Upload(ctx, uploadClient)\<close>\<close>
  | InUpload LocalFile uploadEffect  \<comment> \<open>what that call of \<^verbatim>\<open>Upload\<close> did\<close>
  | MakeChan nat                     \<comment> \<open>\<^verbatim>\<open>make(chan fileStatus, n)\<close>\<close>
  | CloseChan                        \<comment> \<open>\<^verbatim>\<open>close(ch)\<close>\<close>
  | Go LocalFile                     \<comment> \<open>the \<^verbatim>\<open>go\<close> statement of line 116\<close>

text \<open>
  The methods of \<^verbatim>\<open>file.LocalFile\<close> that \<^verbatim>\<open>main.go\<close> calls, and the constant
  \<^verbatim>\<open>file.KB\<close>, are parameters of the model: a \<open>world\<close> says what each call returns.
  \<^verbatim>\<open>Exists\<close> returns \<^verbatim>\<open>(bool, error)\<close>, \<^verbatim>\<open>Name\<close> returns \<^verbatim>\<open>(string, error)\<close>, \<^verbatim>\<open>Size\<close>
  returns a number of bytes (a float in the source, compared by its order only; byte
  counts are exact there, so it is a real here), and \<^verbatim>\<open>Upload\<close> returns an error or
  \<^verbatim>\<open>nil\<close>, together with what it did. The filesystem is not changed by the
  program, so each query is a function of the descriptor.
\<close>

record world =
  KB :: real
  Exists :: "LocalFile \<Rightarrow> bool \<times> error option"
  Size :: "LocalFile \<Rightarrow> real"
  Name :: "LocalFile \<Rightarrow> string \<times> error option"
  Upload :: "LocalFile \<Rightarrow> uploadEffect list \<times> error option"

text \<open>
  Modelled from the spec: \<^verbatim>\<open>file.LocalFile.Upload\<close> is missing from the sources. The spec
  says that in a dry run files "are only described, never transmitted", a dry run being
  "a mode that reports intended actions without performing network I/O"; otherwise the
  task "performs the remote create-call" and reports "success or failure". The
  descriptor carries the flag it was built with. \<open>remote\<close> is the answer of the remote
  service.
\<close>

definition Upload_spec :: "(LocalFile \<Rightarrow> error option) \<Rightarrow> LocalFile
    \<Rightarrow> uploadEffect list \<times> error option" where
  "Upload_spec remote f =
     (if DryRun f then ([Describe], None) else ([RemoteCreate], remote f))"

text \<open>The package-level variables of \<^verbatim>\<open>main.go\<close> (\<^verbatim>\<open>files\<close> is never used).\<close>

record globals =
  upload :: bool
  dryRun :: bool
  allowLargeFiles :: bool
  githubToken :: string

definition maxFilesize :: "world \<Rightarrow> real" where
  "maxFilesize w = KB w * 50"

definition GitHubAPITokenEnv :: string where
  "GitHubAPITokenEnv = ''GITHUB_API_TOKEN''"

text \<open>
  A step of the program either ends the process with an exit status (\<^verbatim>\<open>log.Fatal\<close>
  exits with status 1) or goes on with a value.
\<close>

datatype 'a proc = Exited nat | Continue 'a

section \<open>Startup and argument validation\<close>

text \<open>\<^verbatim>\<open>os.Getenv\<close>: the value of the variable, the empty string when it is not set.\<close>

definition Getenv :: "(string \<rightharpoonup> string) \<Rightarrow> string \<Rightarrow> string" where
  "Getenv env k = (case env k of None \<Rightarrow> [] | Some v \<Rightarrow> v)"

text \<open>
  \<^verbatim>\<open>flag.Parse()\<close> of the standard library, on the command line after the program name,
  for the three boolean flags that \<^verbatim>\<open>init()\<close> registers. The flag set is the default one,
  which ends the process on an error: with status 0 after the usage when \<^verbatim>\<open>-h\<close> or
  \<^verbatim>\<open>-help\<close> is given and not registered, with status 2 after the error line and the usage
  otherwise.

  One argument is a flag when it has at least two characters and starts with \<^verbatim>\<open>-\<close>; one
  or two dashes are the same; \<^verbatim>\<open>--\<close> ends the flags; a name that is empty or starts with
  \<^verbatim>\<open>-\<close> or \<^verbatim>\<open>=\<close> is bad syntax; a value follows the first \<^verbatim>\<open>=\<close>.
\<close>

datatype flagArg = NonFlag | Terminator | BadSyntax | Flag string "string option"

definition flagName :: "string \<Rightarrow> flagArg" where
  "flagName name =
     (case name of
        [] \<Rightarrow> BadSyntax
      | c # cs \<Rightarrow>
          if c = CHR ''-'' \<or> c = CHR ''='' then BadSyntax
          else if CHR ''='' \<in> set cs
          then Flag (c # takeWhile (\<lambda>x. x \<noteq> CHR ''='') cs)
                    (Some (tl (dropWhile (\<lambda>x. x \<noteq> CHR ''='') cs)))
          else Flag name None)"

definition classify :: "string \<Rightarrow> flagArg" where
  "classify s =
     (case s of
        c0 # c1 # cs \<Rightarrow>
          if c0 \<noteq> CHR ''-'' then NonFlag
          else if c1 = CHR ''-'' then (if cs = [] then Terminator else flagName cs)
          else flagName (c1 # cs)
      | _ \<Rightarrow> NonFlag)"

text \<open>\<^verbatim>\<open>strconv.ParseBool\<close>, which sets a boolean flag from \<^verbatim>\<open>-name=value\<close>.\<close>

definition ParseBool :: "string \<Rightarrow> bool option" where
  "ParseBool v =
     (if v \<in> set [''1'', ''t'', ''T'', ''TRUE'', ''true'', ''True''] then Some True
      else if v \<in> set [''0'', ''f'', ''F'', ''FALSE'', ''false'', ''False''] then Some False
      else None)"

text \<open>
  What the parser does with one argument, given the values of \<^verbatim>\<open>upload\<close>, \<^verbatim>\<open>dryRun\<close> and
  \<^verbatim>\<open>allowLargeFiles\<close> so far: it has seen a flag and stored its value, or it stops at this
  argument, or it stops after it, or it ends the process.
\<close>

datatype seen = Seen "bool \<times> bool \<times> bool" | StopHere | StopAfter | Fail "event list" nat

definition setFlag :: "string \<Rightarrow> bool \<Rightarrow> bool \<times> bool \<times> bool \<Rightarrow> bool \<times> bool \<times> bool" where
  "setFlag name b fl =
     (case fl of (up, dry, large) \<Rightarrow>
        if name = ''upload'' then (b, dry, large)
        else if name = ''dryrun'' then (up, b, large)
        else (up, dry, b))"

definition parseOne :: "bool \<times> bool \<times> bool \<Rightarrow> string \<Rightarrow> seen" where
  "parseOne fl s =
     (case classify s of
        NonFlag \<Rightarrow> StopHere
      | Terminator \<Rightarrow> StopAfter
      | BadSyntax \<Rightarrow> Fail [FlagFail (BadFlagSyntax s), Usage] 2
      | Flag name v \<Rightarrow>
          if name \<in> set [''upload'', ''dryrun'', ''allow-large-files'']
          then (case v of
                  None \<Rightarrow> Seen (setFlag name True fl)
                | Some x \<Rightarrow>
                    (case ParseBool x of
                       None \<Rightarrow> Fail [FlagFail (InvalidBool x name), Usage] 2
                     | Some b \<Rightarrow> Seen (setFlag name b fl)))
          else if name = ''help'' \<or> name = ''h'' then Fail [Usage] 0
          else Fail [FlagFail (NotDefined name), Usage] 2)"

text \<open>
  The result of \<^verbatim>\<open>flag.Parse()\<close>: the process has ended, or the three variables are set
  and the remaining arguments are \<^verbatim>\<open>flag.Args()\<close>.
\<close>

datatype parsed = ParseExit "event list" nat | Parsed bool bool bool "string list"

fun parseArgs :: "bool \<times> bool \<times> bool \<Rightarrow> string list \<Rightarrow> parsed" where
  "parseArgs (up, dry, large) [] = Parsed up dry large []"
| "parseArgs (up, dry, large) (s # rest) =
     (case parseOne (up, dry, large) s of
        Seen fl \<Rightarrow> parseArgs fl rest
      | StopHere \<Rightarrow> Parsed up dry large (s # rest)
      | StopAfter \<Rightarrow> Parsed up dry large rest
      | Fail evs n \<Rightarrow> ParseExit evs n)"

definition flagParse :: "string list \<Rightarrow> parsed" where
  "flagParse cmdline = parseArgs (False, False, False) cmdline"

text \<open>
  \<^verbatim>\<open>init()\<close>: the flags are registered with the default \<^verbatim>\<open>false\<close> and parsed (line 35),
  then the token is read and checked (lines 37 to 41). It hands on the package-level
  variables and the positional arguments.
\<close>

definition init :: "(string \<rightharpoonup> string) \<Rightarrow> string list \<Rightarrow> event list \<times> (globals \<times> string list) proc" where
  "init env cmdline =
     (case flagParse cmdline of
        ParseExit evs n \<Rightarrow> (evs, Exited n)
      | Parsed up dry large args \<Rightarrow>
          (let githubToken = Getenv env GitHubAPITokenEnv in
           if githubToken = []
           then ([Fatal ''Environment variable required but missing: GITHUB_API_TOKEN''], Exited 1)
           else ([], Continue (\<lparr>upload = up, dryRun = dry, allowLargeFiles = large,
                                githubToken = githubToken\<rparr>, args))))"

text \<open>\<^verbatim>\<open>checkForArgumentErrors()\<close>; \<open>narg\<close> is \<^verbatim>\<open>flag.NArg()\<close>.\<close>

definition checkForArgumentErrors :: "globals \<Rightarrow> nat \<Rightarrow> event list \<times> unit proc" where
  "checkForArgumentErrors g narg =
     (if \<not> upload g \<and> \<not> dryRun g then ([Usage, Fatal ''Nothing to do''], Exited 1)
      else if upload g \<and> dryRun g
      then ([Fatal ''Can't upload and dryrun at the same time''], Exited 1)
      else if upload g \<and> narg = 0 then ([Fatal ''Selected -upload with no files''], Exited 1)
      else if dryRun g then ([Print ''Doing dry run, nothing will be uploaded''], Continue ())
      else ([], Continue ()))"

section \<open>The selector\<close>

text \<open>
  The body of the loop of \<^verbatim>\<open>getFilesToUpload\<close> for one path: the events of this
  iteration, and the descriptor appended to \<^verbatim>\<open>filesToUpload\<close> (none after a
  \<^verbatim>\<open>continue\<close>). Only the error of \<^verbatim>\<open>Exists()\<close> is looked at, as in the source.
\<close>

definition checkFile :: "world \<Rightarrow> globals \<Rightarrow> string \<Rightarrow> event list \<times> LocalFile option" where
  "checkFile w g f =
     (let localFile = New f (dryRun g) in
      if snd (Exists w localFile) \<noteq> None
      then ([CallExists localFile, WarnNotFound (FilePath localFile)], None)
      else if \<not> allowLargeFiles g
      then (let localFilesize = Size w localFile in
            if localFilesize > maxFilesize w
            then ([CallExists localFile, CallSize localFile,
                   WarnTooLarge (FilePath localFile) (maxFilesize w) localFilesize], None)
            else ([CallExists localFile, CallSize localFile], Some localFile))
      else ([CallExists localFile], Some localFile))"

text \<open>The loop, with the slice \<^verbatim>\<open>filesToUpload\<close> and the trace as accumulators.\<close>

fun getFilesLoop :: "world \<Rightarrow> globals \<Rightarrow> string list \<Rightarrow> event list \<times> LocalFile list
    \<Rightarrow> event list \<times> LocalFile list" where
  "getFilesLoop w g [] acc = acc"
| "getFilesLoop w g (f # fs) (tr, filesToUpload) =
     (case checkFile w g f of
        (ev, None) \<Rightarrow> getFilesLoop w g fs (tr @ ev, filesToUpload)
      | (ev, Some localFile) \<Rightarrow> getFilesLoop w g fs (tr @ ev, filesToUpload @ [localFile]))"

text \<open>\<^verbatim>\<open>getFilesToUpload\<close>: the trace, the slice and the error that are returned.\<close>

definition getFilesToUpload :: "world \<Rightarrow> globals \<Rightarrow> string list
    \<Rightarrow> event list \<times> LocalFile list \<times> error option" where
  "getFilesToUpload w g files =
     (case getFilesLoop w g files ([], []) of
        (tr, filesToUpload) \<Rightarrow>
          if length filesToUpload = 0
          then (tr, filesToUpload, Some ''go-gist: no files to upload'')
          else (tr, filesToUpload, None))"

section \<open>The dispatcher\<close>

text \<open>
  The local type \<^verbatim>\<open>fileStatus\<close> of \<^verbatim>\<open>processFiles\<close>: the fields \<^verbatim>\<open>f\<close> and \<^verbatim>\<open>err\<close>.
  Its zero value is what a receive on the closed, empty channel yields.
\<close>

datatype fileStatus = FileStatus LocalFile "error option"

definition zeroStatus :: fileStatus where
  "zeroStatus = FileStatus \<lparr>FilePath = [], DryRun = False\<rparr> None"

text \<open>The events of one call \<^verbatim>\<open>f.Upload(ctx, uploadClient)\<close>.\<close>

definition uploadEvents :: "world \<Rightarrow> LocalFile \<Rightarrow> event list" where
  "uploadEvents w f = CallUpload f # map (InUpload f) (fst (Upload w f))"

text \<open>The outcome a task builds for a file: lines 117 to 121.\<close>

definition outcomeOf :: "world \<Rightarrow> LocalFile \<Rightarrow> fileStatus" where
  "outcomeOf w f = FileStatus f (snd (Upload w f))"

text \<open>The body of the drain loop for the received value \<^verbatim>\<open>fi\<close>: lines 130 to 138.\<close>

fun report :: "world \<Rightarrow> fileStatus \<Rightarrow> event list" where
  "report w (FileStatus f None) = []"
| "report w (FileStatus f (Some e)) =
     (case Name w f of
        (fname, Some err) \<Rightarrow> [CallName f, LogNameError err]
      | (fname, None) \<Rightarrow> [CallName f, ErrCreateFailed fname])"

text \<open>
  \<^verbatim>\<open>processFiles\<close> runs the calling goroutine and one goroutine per \<^verbatim>\<open>go\<close> statement.
  Its state: where the caller stands (the files the first loop has still to visit, the
  iterations the second loop has still to make, whether the function has returned), the
  goroutines that have not yet called \<^verbatim>\<open>Upload\<close>, those that hold their outcome and
  stand at \<^verbatim>\<open>ch <- s\<close>, the channel (buffer, capacity, closed or not), the values the
  caller has received, and the trace. A send on a closed channel panics.
\<close>

record pstate =
  toSpawn :: "LocalFile list"
  toDrain :: nat
  returned :: bool
  panicked :: bool
  started :: "LocalFile list"
  sending :: "fileStatus list"
  chanBuf :: "fileStatus list"
  chanCap :: nat
  chanClosed :: bool
  received :: "fileStatus list"
  trace :: "event list"

text \<open>The state after lines 104 to 108.\<close>

definition start :: "globals \<Rightarrow> LocalFile list \<Rightarrow> pstate" where
  "start g filesToProcess =
     \<lparr>toSpawn = filesToProcess, toDrain = length filesToProcess, returned = False,
      panicked = False, started = [], sending = [], chanBuf = [],
      chanCap = length filesToProcess, chanClosed = dryRun g, received = [],
      trace = MakeChan (length filesToProcess) # (if dryRun g then [CloseChan] else [])\<rparr>"

text \<open>
  The scheduler picks the caller or one of the goroutines; a schedule is the list of its
  picks. \<open>TaskUpload i\<close> lets the \<open>i\<close>-th goroutine that has not called \<^verbatim>\<open>Upload\<close> do
  so, \<open>TaskSend i\<close> lets the \<open>i\<close>-th goroutine standing at the send do it.
\<close>

datatype action = MainStep | TaskUpload nat | TaskSend nat

text \<open>
  The next step of the caller: one iteration of the first loop (lines 110 to 125), then
  one iteration of the second (lines 127 to 139), then the return. \<open>None\<close>: the caller
  is blocked at the receive.
\<close>

definition mainStep :: "world \<Rightarrow> globals \<Rightarrow> pstate \<Rightarrow> pstate option" where
  "mainStep w g s =
     (case toSpawn s of
        f # rest \<Rightarrow>
          if dryRun g
          then Some (s\<lparr>toSpawn := rest, trace := trace s @ uploadEvents w f\<rparr>)
          else Some (s\<lparr>toSpawn := rest, started := started s @ [f], trace := trace s @ [Go f]\<rparr>)
      | [] \<Rightarrow>
          (case toDrain s of
             Suc k \<Rightarrow>
               (case chanBuf s of
                  fi # rest \<Rightarrow>
                    Some (s\<lparr>toDrain := k, chanBuf := rest, received := received s @ [fi],
                            trace := trace s @ report w fi\<rparr>)
                | [] \<Rightarrow>
                    if chanClosed s
                    then Some (s\<lparr>toDrain := k, received := received s @ [zeroStatus],
                                 trace := trace s @ report w zeroStatus\<rparr>)
                    else None)
           | 0 \<Rightarrow> Some (s\<lparr>returned := True\<rparr>)))"

text \<open>The body of the goroutine up to the send: lines 117 to 121.\<close>

definition taskUpload :: "world \<Rightarrow> nat \<Rightarrow> pstate \<Rightarrow> pstate option" where
  "taskUpload w i s =
     (if i < length (started s)
      then (let f = started s ! i in
            Some (s\<lparr>started := take i (started s) @ drop (Suc i) (started s),
                    sending := sending s @ [outcomeOf w f],
                    trace := trace s @ uploadEvents w f\<rparr>))
      else None)"

text \<open>
  The send of line 123. \<open>None\<close>: the goroutine is blocked, the buffer being full. (With
  capacity 0 a send would need a receiver waiting; then there is no file and no
  goroutine.)
\<close>

definition taskSend :: "nat \<Rightarrow> pstate \<Rightarrow> pstate option" where
  "taskSend i s =
     (if i < length (sending s)
      then (if chanClosed s then Some (s\<lparr>panicked := True\<rparr>)
            else if length (chanBuf s) < chanCap s
            then Some (s\<lparr>sending := take i (sending s) @ drop (Suc i) (sending s),
                         chanBuf := chanBuf s @ [sending s ! i]\<rparr>)
            else None)
      else None)"

definition fire :: "world \<Rightarrow> globals \<Rightarrow> action \<Rightarrow> pstate \<Rightarrow> pstate option" where
  "fire w g a s =
     (if returned s \<or> panicked s then None
      else case a of
             MainStep \<Rightarrow> mainStep w g s
           | TaskUpload i \<Rightarrow> taskUpload w i s
           | TaskSend i \<Rightarrow> taskSend i s)"

text \<open>A pick that cannot move leaves the state as it is.\<close>

definition step :: "world \<Rightarrow> globals \<Rightarrow> pstate \<Rightarrow> action \<Rightarrow> pstate" where
  "step w g s a = (case fire w g a s of None \<Rightarrow> s | Some s' \<Rightarrow> s')"

definition exec :: "world \<Rightarrow> globals \<Rightarrow> action list \<Rightarrow> pstate \<Rightarrow> pstate" where
  "exec w g sched s = foldl (step w g) s sched"

text \<open>
  How a run ends: the process has exited with a status, or the schedule stopped while
  \<^verbatim>\<open>processFiles\<close> was still running.
\<close>

datatype outcome = Exit nat | Running

text \<open>
  \<^verbatim>\<open>processFiles\<close> under a schedule: its trace, and whether it returned. A panic ends
  the process with status 2.
\<close>

definition processFiles :: "world \<Rightarrow> globals \<Rightarrow> LocalFile list \<Rightarrow> action list
    \<Rightarrow> event list \<times> unit proc option" where
  "processFiles w g filesToProcess sched =
     (let s = exec w g sched (start g filesToProcess) in
      (trace s, if panicked s then Some (Exited 2)
                else if returned s then Some (Continue ()) else None))"

section \<open>The program\<close>

text \<open>\<^verbatim>\<open>main()\<close>; \<open>args\<close> is \<^verbatim>\<open>flag.Args()\<close>. Returning from it ends the process with status 0.\<close>

definition main :: "world \<Rightarrow> globals \<Rightarrow> string list \<Rightarrow> action list \<Rightarrow> event list \<times> outcome" where
  "main w g args sched =
     (case checkForArgumentErrors g (length args) of
        (tr1, Exited n) \<Rightarrow> (tr1, Exit n)
      | (tr1, Continue _) \<Rightarrow>
          (case getFilesToUpload w g args of
             (tr2, filesToUpload, Some err) \<Rightarrow> (tr1 @ tr2 @ [Fatal err], Exit 1)
           | (tr2, filesToUpload, None) \<Rightarrow>
               (case processFiles w g filesToUpload sched of
                  (tr3, None) \<Rightarrow> (tr1 @ tr2 @ tr3, Running)
                | (tr3, Some (Exited n)) \<Rightarrow> (tr1 @ tr2 @ tr3, Exit n)
                | (tr3, Some (Continue _)) \<Rightarrow> (tr1 @ tr2 @ tr3, Exit 0))))"

text \<open>
  The process on a command line: \<^verbatim>\<open>init()\<close> runs before \<^verbatim>\<open>main()\<close>, which reads the
  positional arguments with \<^verbatim>\<open>flag.Args()\<close>.
\<close>

definition gogist :: "world \<Rightarrow> (string \<rightharpoonup> string) \<Rightarrow> string list \<Rightarrow> action list
    \<Rightarrow> event list \<times> outcome" where
  "gogist w env cmdline sched =
     (case init env cmdline of
        (tr0, Exited n) \<Rightarrow> (tr0, Exit n)
      | (tr0, Continue (g, args)) \<Rightarrow>
          (case main w g args sched of (tr, r) \<Rightarrow> (tr0 @ tr, r)))"

section \<open>Invariants of the dispatcher\<close>

text \<open>
  Every step that moves takes the state closer to the return: the weight counts the steps
  the caller and the goroutines have still to make.
\<close>

definition weight :: "pstate \<Rightarrow> nat" where
  "weight s = 3 * length (toSpawn s) + 2 * length (started s) + length (sending s) + toDrain s
     + (if returned s \<or> panicked s then 0 else 1)"

text \<open>
  Without dry run: the channel stays open, and every file's outcome is at exactly one
  place: not yet spawned, spawned, held by a goroutine at the send, in the buffer, or
  received.
\<close>

definition uploadInv :: "world \<Rightarrow> LocalFile list \<Rightarrow> pstate \<Rightarrow> bool" where
  "uploadInv w files s \<longleftrightarrow>
     \<not> chanClosed s \<and> \<not> panicked s \<and> chanCap s = length files \<and>
     toDrain s + length (received s) = length files \<and>
     mset (map (outcomeOf w) (toSpawn s)) + mset (map (outcomeOf w) (started s))
       + mset (sending s) + mset (chanBuf s) + mset (received s)
       = mset (map (outcomeOf w) files) \<and>
     (returned s \<longrightarrow> toSpawn s = [] \<and> toDrain s = 0)"

text \<open>
  With dry run: the channel is closed and empty, there is no goroutine, and the trace is a
  prefix of the calls of \<^verbatim>\<open>Upload\<close> in the order of the files.
\<close>

definition dryInv :: "world \<Rightarrow> LocalFile list \<Rightarrow> pstate \<Rightarrow> bool" where
  "dryInv w files s \<longleftrightarrow>
     chanClosed s \<and> \<not> panicked s \<and> started s = [] \<and> sending s = [] \<and> chanBuf s = [] \<and>
     set (received s) \<subseteq> {zeroStatus} \<and> toDrain s + length (received s) = length files \<and>
     trace s @ concat (map (uploadEvents w) (toSpawn s))
       = MakeChan (length files) # CloseChan # concat (map (uploadEvents w) files) \<and>
     (returned s \<longrightarrow> toSpawn s = [] \<and> toDrain s = 0)"

definition runInv :: "world \<Rightarrow> globals \<Rightarrow> LocalFile list \<Rightarrow> pstate \<Rightarrow> bool" where
  "runInv w g files s = (if dryRun g then dryInv w files s else uploadInv w files s)"

text \<open>The events of the \<^verbatim>\<open>go\<close> statement, and those of the drain loop.\<close>

fun isGo :: "event \<Rightarrow> bool" where
  "isGo (Go f) = True"
| "isGo _ = False"

fun isReport :: "event \<Rightarrow> bool" where
  "isReport (CallName f) = True"
| "isReport (LogNameError e) = True"
| "isReport (ErrCreateFailed n) = True"
| "isReport _ = False"

text \<open>
  The files named in the trace are files of the list; the drain loop has logged the
  reports of what it received, in that order; there is one \<^verbatim>\<open>go\<close> per file visited.
\<close>

definition traceInv :: "world \<Rightarrow> globals \<Rightarrow> LocalFile list \<Rightarrow> pstate \<Rightarrow> bool" where
  "traceInv w g files s \<longleftrightarrow>
     set (toSpawn s) \<subseteq> set files \<and> set (started s) \<subseteq> set files \<and>
     (\<forall>f. Go f \<in> set (trace s) \<or> CallUpload f \<in> set (trace s) \<longrightarrow> f \<in> set files) \<and>
     filter isReport (trace s) = concat (map (report w) (received s)) \<and>
     (\<not> dryRun g \<longrightarrow> filter isGo (trace s) @ map Go (toSpawn s) = map Go files)"

section \<open>Example inputs\<close>

text \<open>
  The example of the specification: \<^verbatim>\<open>a.txt\<close> exists and has 1 KB, \<^verbatim>\<open>missing.txt\<close> does
  not exist, \<^verbatim>\<open>big.bin\<close> exists and has 100 KB. Creating the gist of \<^verbatim>\<open>a.txt\<close> fails.
\<close>

definition exampleWorld :: world where
  "exampleWorld =
     \<lparr>KB = 1024,
      Exists = (\<lambda>f. if FilePath f = ''missing.txt'' then (False, Some ''no such file'')
                     else (True, None)),
      Size = (\<lambda>f. if FilePath f = ''big.bin'' then 102400 else 1024),
      Name = (\<lambda>f. (FilePath f, None)),
      Upload = Upload_spec (\<lambda>f. if FilePath f = ''a.txt'' then Some ''create failed'' else None)\<rparr>"

definition exampleGlobals :: globals where
  "exampleGlobals = \<lparr>upload = True, dryRun = False, allowLargeFiles = False, githubToken = ''token''\<rparr>"

text \<open>The environment with a token, without the variable, and with the variable empty.\<close>

definition tokenEnv :: "string \<rightharpoonup> string" where
  "tokenEnv = [GitHubAPITokenEnv \<mapsto> ''token'']"

definition noTokenEnv :: "string \<rightharpoonup> string" where
  "noTokenEnv = Map.empty"

definition emptyTokenEnv :: "string \<rightharpoonup> string" where
  "emptyTokenEnv = [GitHubAPITokenEnv \<mapsto> []]"

definition fileA :: LocalFile where
  "fileA = New ''a.txt'' False"

definition fileB :: LocalFile where
  "fileB = New ''big.bin'' False"

text \<open>The same run with \<^verbatim>\<open>-dryrun\<close> instead of \<^verbatim>\<open>-upload\<close>.\<close>

definition dryGlobals :: globals where
  "dryGlobals = \<lparr>upload = False, dryRun = True, allowLargeFiles = False, githubToken = ''token''\<rparr>"

text \<open>A world in which no display name can be computed.\<close>

definition namelessWorld :: world where
  "namelessWorld = exampleWorld\<lparr>Name := (\<lambda>f. ([], Some ''bad path''))\<rparr>"

section \<open>Properties of the selector\<close>

lemma getFilesLoop_eq:
  "getFilesLoop w g fs (tr, acc) =
     (tr @ concat (map (\<lambda>f. fst (checkFile w g f)) fs),
      acc @ concat (map (\<lambda>f. case snd (checkFile w g f) of None \<Rightarrow> [] | Some l \<Rightarrow> [l]) fs))"
  by (induction fs arbitrary: tr acc) (auto split: prod.splits option.splits)

lemma selector_trace:
  "fst (getFilesToUpload w g fs) = concat (map (\<lambda>f. fst (checkFile w g f)) fs)"
  by (simp add: getFilesToUpload_def getFilesLoop_eq)

lemma selector_files:
  "fst (snd (getFilesToUpload w g fs)) =
     concat (map (\<lambda>f. case snd (checkFile w g f) of None \<Rightarrow> [] | Some l \<Rightarrow> [l]) fs)"
  by (simp add: getFilesToUpload_def getFilesLoop_eq)

lemma selector_error:
  "snd (snd (getFilesToUpload w g fs)) =
     (if fst (snd (getFilesToUpload w g fs)) = [] then Some ''go-gist: no files to upload'' else None)"
  by (simp add: getFilesToUpload_def getFilesLoop_eq)

lemma checkFile_missing:
  "snd (Exists w (New p (dryRun g))) \<noteq> None \<Longrightarrow>
     checkFile w g p = ([CallExists (New p (dryRun g)), WarnNotFound p], None)"
  by (simp add: checkFile_def New_def)

lemma checkFile_kept:
  "snd (checkFile w g p) = Some l \<Longrightarrow> l = New p (dryRun g) \<and> snd (Exists w (New p (dryRun g))) = None"
  by (auto simp: checkFile_def Let_def split: if_splits)

lemma selector_files_paths:
  "f \<in> set (fst (snd (getFilesToUpload w g fs))) \<Longrightarrow>
     \<exists>p \<in> set fs. f = New p (dryRun g) \<and> snd (Exists w f) = None"
  by (auto simp: selector_files split: option.splits dest: checkFile_kept[OF sym])

lemma checkFile_kept2:
  "snd (checkFile w g p) = Some l \<Longrightarrow>
     l = New p (dryRun g) \<and> snd (Exists w l) = None
       \<and> (allowLargeFiles g \<or> Size w l \<le> maxFilesize w)"
  by (auto simp: checkFile_def Let_def split: if_splits)

lemma checkFile_too_large:
  "snd (Exists w (New p (dryRun g))) = None \<Longrightarrow> maxFilesize w < Size w (New p (dryRun g)) \<Longrightarrow>
   \<not> allowLargeFiles g \<Longrightarrow>
     checkFile w g p = ([CallExists (New p (dryRun g)), CallSize (New p (dryRun g)),
        WarnTooLarge p (maxFilesize w) (Size w (New p (dryRun g)))], None)"
  by (simp add: checkFile_def New_def Let_def)

lemma checkFile_override:
  "snd (Exists w (New p (dryRun g))) = None \<Longrightarrow> allowLargeFiles g \<Longrightarrow>
     checkFile w g p = ([CallExists (New p (dryRun g))], Some (New p (dryRun g)))"
  by (simp add: checkFile_def New_def Let_def)

lemma checkFile_override_no_size:
  "allowLargeFiles g \<Longrightarrow> CallSize f \<notin> set (fst (checkFile w g p))"
  by (simp add: checkFile_def New_def Let_def)

lemma selector_files_filter:
  "fst (snd (getFilesToUpload w g fs)) =
     map (\<lambda>p. New p (dryRun g))
       (filter (\<lambda>p. snd (Exists w (New p (dryRun g))) = None
                   \<and> (allowLargeFiles g \<or> Size w (New p (dryRun g)) \<le> maxFilesize w)) fs)"
  unfolding selector_files
  by (induction fs) (auto simp: checkFile_def Let_def New_def)

section \<open>Properties of the dispatcher\<close>

lemma mset_remove_nth:
  "i < length xs \<Longrightarrow> mset (take i xs @ drop (Suc i) xs) + {#xs ! i#} = mset xs"
proof -
  assume "i < length xs"
  then have "xs = take i xs @ xs ! i # drop (Suc i) xs" by (rule id_take_nth_drop)
  then have "mset xs = mset (take i xs @ xs ! i # drop (Suc i) xs)" by simp
  then show ?thesis by simp
qed

lemma mset_map_remove_nth:
  "i < length xs \<Longrightarrow> mset (map h (take i xs @ drop (Suc i) xs)) + {#h (xs ! i)#} = mset (map h xs)"
  using mset_remove_nth[of i "map h xs"] by (simp add: take_map drop_map)

lemma uploadInv_start: "\<not> dryRun g \<Longrightarrow> uploadInv w files (start g files)"
  by (simp add: uploadInv_def start_def)

lemma uploadInv_counts:
  assumes "uploadInv w files s"
  shows "length (toSpawn s) + length (started s) + length (sending s) + length (chanBuf s)
           + length (received s) = length files"
proof -
  from assms have "size (mset (map (outcomeOf w) (toSpawn s)) + mset (map (outcomeOf w) (started s))
       + mset (sending s) + mset (chanBuf s) + mset (received s)) = size (mset (map (outcomeOf w) files))"
    by (simp only: uploadInv_def)
  then show ?thesis by simp
qed

lemma uploadInv_mainStep:
  assumes "uploadInv w files s" "\<not> dryRun g" "mainStep w g s = Some s'"
  shows "uploadInv w files s'"
  using assms
  by (auto simp: uploadInv_def mainStep_def split: list.splits nat.splits if_splits)

lemma uploadInv_taskUpload:
  assumes "uploadInv w files s" "taskUpload w i s = Some s'"
  shows "uploadInv w files s'"
proof -
  from assms(2) have i: "i < length (started s)" by (simp add: taskUpload_def split: if_splits)
  define rest where "rest = take i (started s) @ drop (Suc i) (started s)"
  define x where "x = outcomeOf w (started s ! i)"
  have s': "s' = s\<lparr>started := rest, sending := sending s @ [x],
                    trace := trace s @ uploadEvents w (started s ! i)\<rparr>"
    using assms(2) i by (simp add: taskUpload_def rest_def x_def Let_def)
  have K: "mset (map (outcomeOf w) rest) + {#x#} = mset (map (outcomeOf w) (started s))"
    unfolding rest_def x_def by (rule mset_map_remove_nth[OF i])
  from assms(1) have E: "mset (map (outcomeOf w) (toSpawn s)) + mset (map (outcomeOf w) (started s))
       + mset (sending s) + mset (chanBuf s) + mset (received s) = mset (map (outcomeOf w) files)"
    by (simp only: uploadInv_def)
  have "mset (map (outcomeOf w) (toSpawn s)) + mset (map (outcomeOf w) rest)
       + mset (sending s @ [x]) + mset (chanBuf s) + mset (received s) = mset (map (outcomeOf w) files)"
    unfolding E[symmetric] K[symmetric] by (simp add: ac_simps)
  moreover from assms(1) have "\<not> chanClosed s \<and> \<not> panicked s \<and> chanCap s = length files \<and>
     toDrain s + length (received s) = length files \<and> (returned s \<longrightarrow> toSpawn s = [] \<and> toDrain s = 0)"
    by (simp add: uploadInv_def)
  ultimately show ?thesis
    unfolding uploadInv_def s' by simp
qed

lemma uploadInv_send_free:
  assumes "uploadInv w files s" "i < length (sending s)"
  shows "length (chanBuf s) < chanCap s" "\<not> returned s"
proof -
  from uploadInv_counts[OF assms(1)] assms(2) show "length (chanBuf s) < chanCap s"
    using assms(1) by (simp add: uploadInv_def)
  from uploadInv_counts[OF assms(1)] assms(2) show "\<not> returned s"
    using assms(1) by (auto simp: uploadInv_def)
qed

lemma uploadInv_taskSend:
  assumes "uploadInv w files s" "taskSend i s = Some s'"
  shows "uploadInv w files s'"
proof -
  from assms(2) have i: "i < length (sending s)" by (simp add: taskSend_def split: if_splits)
  define rest where "rest = take i (sending s) @ drop (Suc i) (sending s)"
  define x where "x = sending s ! i"
  have "\<not> chanClosed s" using assms(1) by (simp add: uploadInv_def)
  then have s': "s' = s\<lparr>sending := rest, chanBuf := chanBuf s @ [x]\<rparr>"
    using assms(2) i uploadInv_send_free(1)[OF assms(1) i]
    by (simp add: taskSend_def rest_def x_def)
  have K: "mset rest + {#x#} = mset (sending s)"
    unfolding rest_def x_def by (rule mset_remove_nth[OF i])
  from assms(1) have E: "mset (map (outcomeOf w) (toSpawn s)) + mset (map (outcomeOf w) (started s))
       + mset (sending s) + mset (chanBuf s) + mset (received s) = mset (map (outcomeOf w) files)"
    by (simp only: uploadInv_def)
  have "mset (map (outcomeOf w) (toSpawn s)) + mset (map (outcomeOf w) (started s))
       + mset rest + mset (chanBuf s @ [x]) + mset (received s) = mset (map (outcomeOf w) files)"
    unfolding E[symmetric] K[symmetric] by (simp add: ac_simps)
  moreover from assms(1) have "\<not> chanClosed s \<and> \<not> panicked s \<and> chanCap s = length files \<and>
     toDrain s + length (received s) = length files \<and> (returned s \<longrightarrow> toSpawn s = [] \<and> toDrain s = 0)"
    by (simp add: uploadInv_def)
  ultimately show ?thesis
    unfolding uploadInv_def s' by simp
qed

lemma fire_cases:
  assumes "fire w g a s = Some s'"
  obtains "a = MainStep" "mainStep w g s = Some s'"
    | i where "a = TaskUpload i" "taskUpload w i s = Some s'"
    | i where "a = TaskSend i" "taskSend i s = Some s'"
  using assms by (cases a) (simp_all add: fire_def split: if_splits)

lemma uploadInv_step:
  assumes "uploadInv w files s" "\<not> dryRun g"
  shows "uploadInv w files (step w g s a)"
proof (cases "fire w g a s")
  case None
  then show ?thesis using assms by (simp add: step_def)
next
  case (Some s')
  then have "uploadInv w files s'"
  proof (cases rule: fire_cases)
    case 1
    then show ?thesis using assms uploadInv_mainStep by blast
  next
    case (2 i)
    then show ?thesis using assms uploadInv_taskUpload by blast
  next
    case (3 i)
    then show ?thesis using assms uploadInv_taskSend by blast
  qed
  with Some show ?thesis by (simp add: step_def)
qed

lemma exec_Nil [simp]: "exec w g [] s = s"
  by (simp add: exec_def)

lemma exec_Cons [simp]: "exec w g (a # sched) s = exec w g sched (step w g s a)"
  by (simp add: exec_def)

lemma exec_append: "exec w g (xs @ ys) s = exec w g ys (exec w g xs s)"
  by (simp add: exec_def)

lemma uploadInv_exec:
  "uploadInv w files s \<Longrightarrow> \<not> dryRun g \<Longrightarrow> uploadInv w files (exec w g sched s)"
  by (induction sched arbitrary: s) (simp_all add: uploadInv_step)

lemma weight_mainStep: "mainStep w g s = Some s' \<Longrightarrow> \<not> returned s \<Longrightarrow> \<not> panicked s \<Longrightarrow> weight s' < weight s"
  by (auto simp: mainStep_def weight_def split: if_splits list.splits nat.splits)

lemma weight_taskUpload: "taskUpload w i s = Some s' \<Longrightarrow> \<not> returned s \<Longrightarrow> \<not> panicked s \<Longrightarrow> weight s' < weight s"
  by (auto simp: taskUpload_def weight_def Let_def split: if_splits)

lemma weight_taskSend: "taskSend i s = Some s' \<Longrightarrow> \<not> returned s \<Longrightarrow> \<not> panicked s \<Longrightarrow> weight s' < weight s"
  by (auto simp: taskSend_def weight_def Let_def split: if_splits)

lemma weight_fire:
  assumes "fire w g a s = Some s'"
  shows "weight s' < weight s"
proof -
  from assms have n: "\<not> returned s" "\<not> panicked s" by (auto simp: fire_def split: if_splits)
  from assms n show ?thesis
    by (cases rule: fire_cases) (simp_all add: weight_mainStep weight_taskUpload weight_taskSend)
qed


lemma report_zero [simp]: "report w zeroStatus = []"
  by (simp add: zeroStatus_def)

lemma dryInv_start: "dryRun g \<Longrightarrow> dryInv w files (start g files)"
  by (simp add: dryInv_def start_def)

lemma dryInv_mainStep:
  assumes "dryInv w files s" "dryRun g" "mainStep w g s = Some s'"
  shows "dryInv w files s'"
  using assms
  by (auto simp: dryInv_def mainStep_def
           split: list.splits nat.splits if_splits)

lemma dryInv_step:
  assumes "dryInv w files s" "dryRun g"
  shows "dryInv w files (step w g s a)"
proof (cases "fire w g a s")
  case None
  then show ?thesis using assms by (simp add: step_def)
next
  case (Some s')
  then have "dryInv w files s'"
  proof (cases rule: fire_cases)
    case 1
    then show ?thesis using assms dryInv_mainStep by blast
  next
    case (2 i)
    then show ?thesis using assms by (simp add: taskUpload_def dryInv_def)
  next
    case (3 i)
    then show ?thesis using assms by (simp add: taskSend_def dryInv_def)
  qed
  with Some show ?thesis by (simp add: step_def)
qed

lemma runInv_start: "runInv w g files (start g files)"
  by (simp add: runInv_def dryInv_start uploadInv_start)

lemma runInv_step: "runInv w g files s \<Longrightarrow> runInv w g files (step w g s a)"
  by (simp add: runInv_def dryInv_step uploadInv_step split: if_splits)

lemma runInv_exec: "runInv w g files s \<Longrightarrow> runInv w g files (exec w g sched s)"
  by (induction sched arbitrary: s) (simp_all add: runInv_step)

lemma runInv_reach: "runInv w g files (exec w g sched (start g files))"
  by (rule runInv_exec[OF runInv_start])

lemma runInv_not_panicked: "runInv w g files s \<Longrightarrow> \<not> panicked s"
  by (simp add: runInv_def dryInv_def uploadInv_def split: if_splits)

lemma progress_dry:
  assumes "dryInv w files s" "dryRun g" "\<not> returned s"
  shows "\<exists>s'. fire w g MainStep s = Some s'"
  using assms
  by (auto simp: fire_def mainStep_def dryInv_def split: list.splits nat.splits)

lemma progress_upload:
  assumes "uploadInv w files s" "\<not> dryRun g" "\<not> returned s"
  shows "\<exists>a s'. fire w g a s = Some s'"
proof -
  have np: "\<not> panicked s" using assms(1) by (simp add: uploadInv_def)
  consider (spawn) "toSpawn s \<noteq> []" | (upl) "started s \<noteq> []" | (snd) "sending s \<noteq> []"
    | (drain) "toSpawn s = []" "started s = []" "sending s = []"
    by blast
  then show ?thesis
  proof cases
    case spawn
    then have "\<exists>s'. fire w g MainStep s = Some s'"
      using assms np by (auto simp: fire_def mainStep_def split: list.splits)
    then show ?thesis by blast
  next
    case upl
    then have "\<exists>s'. fire w g (TaskUpload 0) s = Some s'"
      using assms np by (simp add: fire_def taskUpload_def Let_def)
    then show ?thesis by blast
  next
    case snd
    then have i: "0 < length (sending s)" by simp
    from uploadInv_send_free(1)[OF assms(1) i] i have "\<exists>s'. fire w g (TaskSend 0) s = Some s'"
      using assms np by (simp add: fire_def taskSend_def uploadInv_def)
    then show ?thesis by blast
  next
    case drain
    with uploadInv_counts[OF assms(1)] assms(1)
    have "toDrain s = length (chanBuf s)" by (simp add: uploadInv_def)
    then have "\<exists>s'. fire w g MainStep s = Some s'"
      using assms np drain by (auto simp: fire_def mainStep_def split: list.splits nat.splits)
    then show ?thesis by blast
  qed
qed

lemma progress:
  assumes "runInv w g files s" "\<not> returned s"
  shows "\<exists>a s'. fire w g a s = Some s'"
  using assms progress_dry progress_upload
  by (cases "dryRun g") (simp_all add: runInv_def, blast)

lemma completes:
  "runInv w g files s \<Longrightarrow> \<exists>sched. returned (exec w g sched s)"
proof (induction "weight s" arbitrary: s rule: less_induct)
  case less
  show ?case
  proof (cases "returned s")
    case True
    then have "returned (exec w g [] s)" by simp
    then show ?thesis by blast
  next
    case False
    from progress[OF less.prems False] obtain a s' where f: "fire w g a s = Some s'" by blast
    then have st: "step w g s a = s'" by (simp add: step_def)
    from runInv_step[OF less.prems, of a] st have "runInv w g files s'" by simp
    from less.hyps[OF weight_fire[OF f] this] obtain sched where "returned (exec w g sched s')"
      by blast
    then have "returned (exec w g (a # sched) s)" using st by simp
    then show ?thesis by blast
  qed
qed


lemma report_events:
  "e \<in> set (report w fi) \<Longrightarrow> (\<exists>f. e = CallName f) \<or> (\<exists>m. e = LogNameError m) \<or> (\<exists>n. e = ErrCreateFailed n)"
  by (cases "(w, fi)" rule: report.cases) (auto split: prod.splits option.splits)

lemma report_no_dispatch [simp]:
  "Go f \<notin> set (report w fi)" "CallUpload f \<notin> set (report w fi)"
  using report_events[of "Go f" w fi] report_events[of "CallUpload f" w fi] by auto

lemma filter_isGo_report [simp]: "filter isGo (report w fi) = []"
  by (cases "(w, fi)" rule: report.cases) (auto split: prod.splits option.splits)

lemma filter_isReport_report [simp]: "filter isReport (report w fi) = report w fi"
  by (cases "(w, fi)" rule: report.cases) (auto split: prod.splits option.splits)

lemma filter_isReport_uploadEvents [simp]: "filter isReport (uploadEvents w f) = []"
  by (simp add: uploadEvents_def filter_empty_conv image_iff)

lemma filter_isGo_uploadEvents [simp]: "filter isGo (uploadEvents w f) = []"
  by (simp add: uploadEvents_def filter_empty_conv image_iff)

lemma uploadEvents_dispatch [simp]:
  "Go f' \<notin> set (uploadEvents w f)" "CallUpload f' \<in> set (uploadEvents w f) \<longleftrightarrow> f' = f"
  by (auto simp: uploadEvents_def)

lemma traceInv_start: "traceInv w g files (start g files)"
  by (simp add: traceInv_def start_def)

lemma traceInv_mainStep:
  assumes "traceInv w g files s" "mainStep w g s = Some s'"
  shows "traceInv w g files s'"
  using assms
  by (auto simp: traceInv_def mainStep_def split: list.splits nat.splits if_splits)

lemma traceInv_taskUpload:
  assumes "traceInv w g files s" "taskUpload w i s = Some s'"
  shows "traceInv w g files s'"
proof -
  from assms(2) have i: "i < length (started s)" by (simp add: taskUpload_def split: if_splits)
  define rest where "rest = take i (started s) @ drop (Suc i) (started s)"
  have s': "s' = s\<lparr>started := rest,
                    sending := sending s @ [outcomeOf w (started s ! i)],
                    trace := trace s @ uploadEvents w (started s ! i)\<rparr>"
    using assms(2) i by (simp add: taskUpload_def Let_def rest_def)
  have "started s ! i \<in> set (started s)" using i by simp
  moreover have "set rest \<subseteq> set (started s)"
    using set_take_subset[of i "started s"] set_drop_subset[of "Suc i" "started s"]
    by (simp add: rest_def)
  ultimately show ?thesis using assms(1) unfolding traceInv_def s'
    by auto
qed

lemma traceInv_taskSend:
  assumes "traceInv w g files s" "taskSend i s = Some s'"
  shows "traceInv w g files s'"
  using assms by (auto simp: traceInv_def taskSend_def split: if_splits)

lemma traceInv_step: "traceInv w g files s \<Longrightarrow> traceInv w g files (step w g s a)"
proof (cases "fire w g a s")
  case None
  assume "traceInv w g files s"
  with None show ?thesis by (simp add: step_def)
next
  case (Some s')
  assume a: "traceInv w g files s"
  from Some have "traceInv w g files s'"
  proof (cases rule: fire_cases)
    case 1
    then show ?thesis using a traceInv_mainStep by blast
  next
    case (2 i)
    then show ?thesis using a traceInv_taskUpload by blast
  next
    case (3 i)
    then show ?thesis using a traceInv_taskSend by blast
  qed
  with Some show ?thesis by (simp add: step_def)
qed

lemma traceInv_exec: "traceInv w g files s \<Longrightarrow> traceInv w g files (exec w g sched s)"
  by (induction sched arbitrary: s) (simp_all add: traceInv_step)

lemma traceInv_reach: "traceInv w g files (exec w g sched (start g files))"
  by (rule traceInv_exec[OF traceInv_start])

section \<open>The program as a whole\<close>

lemma checkFile_events:
  "e \<in> set (fst (checkFile w g p)) \<Longrightarrow>
     (\<exists>f. e = CallExists f) \<or> (\<exists>f. e = CallSize f) \<or> (\<exists>q. e = WarnNotFound q)
       \<or> (\<exists>q c z. e = WarnTooLarge q c z)"
  by (auto simp: checkFile_def Let_def split: if_splits)

lemma selector_events:
  "e \<in> set (fst (getFilesToUpload w g fs)) \<Longrightarrow>
     (\<exists>f. e = CallExists f) \<or> (\<exists>f. e = CallSize f) \<or> (\<exists>q. e = WarnNotFound q)
       \<or> (\<exists>q c z. e = WarnTooLarge q c z)"
  by (auto simp: selector_trace dest: checkFile_events)

lemma check_events:
  "e \<in> set (fst (checkForArgumentErrors g n)) \<Longrightarrow> e = Usage \<or> (\<exists>m. e = Fatal m) \<or> (\<exists>m. e = Print m)"
  by (auto simp: checkForArgumentErrors_def split: if_splits)

lemma processFiles_trace:
  "fst (processFiles w g files sched) = trace (exec w g sched (start g files))"
  by (simp add: processFiles_def Let_def)

lemma main_trace_cases:
  assumes "e \<in> set (fst (main w g args sched))"
  shows "e \<in> set (fst (checkForArgumentErrors g (length args)))
       \<or> e \<in> set (fst (getFilesToUpload w g args))
       \<or> (\<exists>m. e = Fatal m)
       \<or> e \<in> set (trace (exec w g sched (start g (fst (snd (getFilesToUpload w g args))))))"
  using assms
  by (auto simp: main_def processFiles_def Let_def split: prod.splits proc.splits option.splits if_splits)

lemma dispatched_in_files:
  assumes "Go f \<in> set (trace (exec w g sched (start g files)))
         \<or> CallUpload f \<in> set (trace (exec w g sched (start g files)))"
  shows "f \<in> set files"
  using traceInv_reach[of w g files sched] assms by (auto simp: traceInv_def)

lemma main_dispatched:
  assumes "Go f \<in> set (fst (main w g args sched)) \<or> CallUpload f \<in> set (fst (main w g args sched))"
  shows "f \<in> set (fst (snd (getFilesToUpload w g args)))"
proof -
  from assms obtain e where e: "e = Go f \<or> e = CallUpload f" "e \<in> set (fst (main w g args sched))"
    by blast
  from main_trace_cases[OF e(2)] e(1) check_events[of e g "length args"]
    selector_events[of e w g args]
  have "e \<in> set (trace (exec w g sched (start g (fst (snd (getFilesToUpload w g args))))))"
    by auto
  with e(1) dispatched_in_files show ?thesis by blast
qed

lemma example_selected:
  "getFilesToUpload exampleWorld exampleGlobals [''a.txt'', ''missing.txt'', ''big.bin'']
     = ([CallExists (New ''a.txt'' False), CallSize (New ''a.txt'' False),
          CallExists (New ''missing.txt'' False), WarnNotFound ''missing.txt'',
          CallExists (New ''big.bin'' False), CallSize (New ''big.bin'' False),
          WarnTooLarge ''big.bin'' 51200 102400], [New ''a.txt'' False], None)"
  by (simp add: exampleWorld_def exampleGlobals_def New_def getFilesToUpload_def checkFile_def
        maxFilesize_def Let_def)

lemma example_selected_large:
  "getFilesToUpload exampleWorld (exampleGlobals\<lparr>allowLargeFiles := True\<rparr>)
       [''a.txt'', ''missing.txt'', ''big.bin'']
     = ([CallExists (New ''a.txt'' False),
          CallExists (New ''missing.txt'' False), WarnNotFound ''missing.txt'',
          CallExists (New ''big.bin'' False)],
        [New ''a.txt'' False, New ''big.bin'' False], None)"
  by (simp add: exampleWorld_def exampleGlobals_def New_def getFilesToUpload_def checkFile_def
        maxFilesize_def Let_def)

lemma check_status: "snd (checkForArgumentErrors g n) = Exited k \<Longrightarrow> k = 1"
  by (auto simp: checkForArgumentErrors_def split: if_splits)

lemma main_no_files:
  assumes "fst (snd (getFilesToUpload w g args)) = []"
  shows "main w g args sched =
     (case snd (checkForArgumentErrors g (length args)) of
        Exited n \<Rightarrow> (fst (checkForArgumentErrors g (length args)), Exit 1)
      | Continue u \<Rightarrow>
          (fst (checkForArgumentErrors g (length args)) @ fst (getFilesToUpload w g args)
             @ [Fatal ''go-gist: no files to upload''], Exit 1))"
proof -
  obtain tr fs err where sel: "getFilesToUpload w g args = (tr, fs, err)"
    by (cases "getFilesToUpload w g args") auto
  with assms have fs: "fs = []" by simp
  from selector_error[of w g args] sel fs have err: "err = Some ''go-gist: no files to upload''"
    by simp
  obtain tr1 r where chk: "checkForArgumentErrors g (length args) = (tr1, r)"
    by (cases "checkForArgumentErrors g (length args)") auto
  show ?thesis
  proof (cases r)
    case (Exited n)
    with chk check_status[of g "length args" n] have "n = 1" by simp
    with Exited chk show ?thesis by (simp add: main_def)
  next
    case (Continue u)
    with chk sel fs err show ?thesis by (simp add: main_def)
  qed
qed

lemma check_passes_iff:
  "snd (checkForArgumentErrors g narg) = Continue ()
     \<longleftrightarrow> upload g \<noteq> dryRun g \<and> (upload g \<longrightarrow> narg \<noteq> 0)"
  by (auto simp: checkForArgumentErrors_def)

lemma main_dispatch:
  assumes "checkForArgumentErrors g (length args) = (tr1, Continue ())"
    and "getFilesToUpload w g args = (tr2, files, None)"
  shows "main w g args sched =
           (tr1 @ tr2 @ trace (exec w g sched (start g files)),
            if returned (exec w g sched (start g files)) then Exit 0 else Running)"
  using assms runInv_not_panicked[OF runInv_reach[of w g files sched]]
  by (simp add: main_def processFiles_def Let_def)

lemma completes_from_start:
  "\<exists>sched'. returned (exec w g (sched @ sched') (start g files))"
  using completes[OF runInv_reach[of w g files sched]] by (simp add: exec_append)

lemma upload_at_return:
  assumes "uploadInv w files s" "returned s"
  shows "length (received s) = length files" "started s = []" "sending s = []" "chanBuf s = []"
    "mset (received s) = mset (map (outcomeOf w) files)"
proof -
  from assms have z: "toSpawn s = []" "toDrain s = 0" by (simp_all add: uploadInv_def)
  with assms(1) show n: "length (received s) = length files" by (simp add: uploadInv_def)
  from uploadInv_counts[OF assms(1)] z n
  show e: "started s = []" "sending s = []" "chanBuf s = []" by simp_all
  from assms(1) z e show "mset (received s) = mset (map (outcomeOf w) files)"
    by (simp add: uploadInv_def)
qed

lemma fire_trace: "fire w g a s = Some s' \<Longrightarrow> \<exists>t. trace s' = trace s @ t"
  by (cases rule: fire_cases, assumption)
     (auto simp: mainStep_def taskUpload_def taskSend_def Let_def
           split: list.splits nat.splits if_splits)

lemma step_trace: "\<exists>t. trace (step w g s a) = trace s @ t"
  using fire_trace[of w g a s] by (cases "fire w g a s") (auto simp: step_def)

lemma exec_trace: "\<exists>t. trace (exec w g sched s) = trace s @ t"
proof (induction sched arbitrary: s)
  case Nil
  then show ?case by simp
next
  case (Cons a sched)
  from step_trace[of w g s a] obtain t1 where t1: "trace (step w g s a) = trace s @ t1" by blast
  from Cons[of "step w g s a"] obtain t2
    where "trace (exec w g sched (step w g s a)) = trace (step w g s a) @ t2" by blast
  with t1 have "trace (exec w g (a # sched) s) = trace s @ (t1 @ t2)" by simp
  then show ?case by blast
qed

lemma selector_files_flag:
  "f \<in> set (fst (snd (getFilesToUpload w g args))) \<Longrightarrow> DryRun f = dryRun g"
  by (auto simp: selector_files_filter New_def)

lemma uploadEvents_dry:
  "Upload w = Upload_spec remote \<Longrightarrow> DryRun f \<Longrightarrow>
     uploadEvents w f = [CallUpload f, InUpload f Describe]"
  by (simp add: uploadEvents_def Upload_spec_def)

lemma report_failed:
  "snd (Upload w f) = Some e \<Longrightarrow>
     report w (outcomeOf w f) =
       (case Name w f of
          (fname, Some err) \<Rightarrow> [CallName f, LogNameError err]
        | (fname, None) \<Rightarrow> [CallName f, ErrCreateFailed fname])"
  by (simp add: outcomeOf_def)

lemma example_check:
  "checkForArgumentErrors exampleGlobals (length [''a.txt'', ''missing.txt'', ''big.bin''])
     = ([], Continue ())"
  by (simp add: checkForArgumentErrors_def exampleGlobals_def)

lemmas parse_defs =
  flagParse_def parseOne_def classify_def flagName_def setFlag_def ParseBool_def

lemma parseOne_exit:
  "parseOne fl s = Fail evs n \<Longrightarrow> n = 0 \<and> evs = [Usage] \<or> n = 2"
  by (auto simp: parseOne_def split: flagArg.splits option.splits if_splits)

lemma parseArgs_exit:
  "parseArgs fl cmdline = ParseExit evs n \<Longrightarrow> n = 0 \<and> evs = [Usage] \<or> n = 2"
proof (induction fl cmdline rule: parseArgs.induct)
  case (1 up dry large)
  then show ?case by simp
next
  case (2 up dry large s rest)
  then show ?case
    by (cases "parseOne (up, dry, large) s") (auto dest: parseOne_exit)
qed

lemma flagParse_exit:
  "flagParse cmdline = ParseExit evs n \<Longrightarrow> n = 0 \<and> evs = [Usage] \<or> n = 2"
  unfolding flagParse_def by (rule parseArgs_exit)

section \<open>The claims\<close>

text \<open>
  C1. For every list of paths, a path whose existence check fails is left out by
  \<^verbatim>\<open>getFilesToUpload\<close>: the check returns an error, the warning of line 73 is logged, the
  loop goes on with the next path as if this one had not been there, no descriptor with
  this path is in the returned slice, and in no run of \<^verbatim>\<open>main\<close> is such a descriptor
  started as a goroutine or uploaded.
\<close>

theorem missing_file_excluded:
  assumes "snd (Exists w (New p (dryRun g))) \<noteq> None"
  shows "fst (getFilesToUpload w g (xs @ p # ys)) =
           fst (getFilesToUpload w g xs) @ [CallExists (New p (dryRun g)), WarnNotFound p]
             @ fst (getFilesToUpload w g ys)
       \<and> fst (snd (getFilesToUpload w g (xs @ p # ys))) =
           fst (snd (getFilesToUpload w g xs)) @ fst (snd (getFilesToUpload w g ys))
       \<and> p \<notin> FilePath ` set (fst (snd (getFilesToUpload w g files)))
       \<and> (\<forall>f. FilePath f = p \<longrightarrow> Go f \<notin> set (fst (main w g files sched))
                                \<and> CallUpload f \<notin> set (fst (main w g files sched)))"
proof -
  have a: "fst (getFilesToUpload w g (xs @ p # ys)) =
           fst (getFilesToUpload w g xs) @ [CallExists (New p (dryRun g)), WarnNotFound p]
             @ fst (getFilesToUpload w g ys)"
    by (simp add: selector_trace checkFile_missing[OF assms])
  have b: "fst (snd (getFilesToUpload w g (xs @ p # ys))) =
           fst (snd (getFilesToUpload w g xs)) @ fst (snd (getFilesToUpload w g ys))"
    by (simp add: selector_files checkFile_missing[OF assms])
  have c: "p \<notin> FilePath ` set (fst (snd (getFilesToUpload w g fs)))" for fs
  proof
    assume "p \<in> FilePath ` set (fst (snd (getFilesToUpload w g fs)))"
    then obtain f where f: "f \<in> set (fst (snd (getFilesToUpload w g fs)))" "FilePath f = p"
      by auto
    from selector_files_paths[OF f(1)] obtain q
      where "f = New q (dryRun g)" "snd (Exists w f) = None"
      by auto
    with f(2) assms show False by (simp add: New_def)
  qed
  have d: "Go f \<notin> set (fst (main w g files sched)) \<and> CallUpload f \<notin> set (fst (main w g files sched))"
    if "FilePath f = p" for f
    using main_dispatched[of f w g files sched] c[of files] that by blast
  from a b c d show ?thesis by blast
qed

theorem missing_file_excluded_witness:
  "snd (Exists exampleWorld (New ''missing.txt'' (dryRun exampleGlobals))) \<noteq> None
   \<and> fst (snd (getFilesToUpload exampleWorld exampleGlobals [''a.txt'', ''missing.txt'', ''big.bin'']))
       = [New ''a.txt'' False]
   \<and> WarnNotFound ''missing.txt'' \<in> set (fst (getFilesToUpload exampleWorld exampleGlobals
        [''a.txt'', ''missing.txt'', ''big.bin'']))
   \<and> ''missing.txt'' \<notin> FilePath ` set (fst (snd (getFilesToUpload exampleWorld exampleGlobals
        [''a.txt'', ''missing.txt'', ''big.bin''])))
   \<and> Go (New ''missing.txt'' False) \<notin> set (fst (main exampleWorld exampleGlobals
        [''a.txt'', ''missing.txt'', ''big.bin''] [MainStep, TaskUpload 0, TaskSend 0, MainStep, MainStep]))"
proof -
  have h: "snd (Exists exampleWorld (New ''missing.txt'' (dryRun exampleGlobals))) \<noteq> None"
    by (simp add: exampleWorld_def New_def)
  have p: "FilePath (New ''missing.txt'' False) = ''missing.txt''"
    by (simp add: New_def)
  note t = missing_file_excluded[OF h, of "[''a.txt'']" "[''big.bin'']"
          "[''a.txt'', ''missing.txt'', ''big.bin'']"
          "[MainStep, TaskUpload 0, TaskSend 0, MainStep, MainStep]"]
  from t have t3: "''missing.txt'' \<notin> FilePath ` set (fst (snd (getFilesToUpload exampleWorld
        exampleGlobals [''a.txt'', ''missing.txt'', ''big.bin''])))"
    by blast
  from t p have t4: "Go (New ''missing.txt'' False) \<notin> set (fst (main exampleWorld exampleGlobals
        [''a.txt'', ''missing.txt'', ''big.bin''] [MainStep, TaskUpload 0, TaskSend 0, MainStep, MainStep]))"
    by blast
  have sel: "fst (snd (getFilesToUpload exampleWorld exampleGlobals [''a.txt'', ''missing.txt'', ''big.bin'']))
       = [New ''a.txt'' False]"
    by (simp add: example_selected)
  have wrn: "WarnNotFound ''missing.txt'' \<in> set (fst (getFilesToUpload exampleWorld exampleGlobals
        [''a.txt'', ''missing.txt'', ''big.bin'']))"
    by (simp add: example_selected)
  from h sel wrn t3 t4 show ?thesis by blast
qed

text \<open>
  C2. An existing file larger than the ceiling \<^verbatim>\<open>maxFilesize\<close>, which is 50 times
  \<^verbatim>\<open>file.KB\<close>: without \<^verbatim>\<open>-allow-large-files\<close> it is left out, the warning of line 81
  reports the path, the ceiling and the actual size, and the loop goes on; with the flag
  the same file is in the returned slice and \<^verbatim>\<open>Size()\<close> is not called for any file.
\<close>

theorem oversized_file:
  assumes "snd (Exists w (New p (dryRun g))) = None"
    and "maxFilesize w < Size w (New p (dryRun g))"
  shows "maxFilesize w = KB w * 50
     \<and> (\<not> allowLargeFiles g \<longrightarrow>
          fst (getFilesToUpload w g (xs @ p # ys)) =
            fst (getFilesToUpload w g xs)
              @ [CallExists (New p (dryRun g)), CallSize (New p (dryRun g)),
                 WarnTooLarge p (maxFilesize w) (Size w (New p (dryRun g)))]
              @ fst (getFilesToUpload w g ys)
        \<and> fst (snd (getFilesToUpload w g (xs @ p # ys))) =
            fst (snd (getFilesToUpload w g xs)) @ fst (snd (getFilesToUpload w g ys))
        \<and> p \<notin> FilePath ` set (fst (snd (getFilesToUpload w g files))))
     \<and> (allowLargeFiles g \<longrightarrow>
          fst (getFilesToUpload w g (xs @ p # ys)) =
            fst (getFilesToUpload w g xs) @ [CallExists (New p (dryRun g))]
              @ fst (getFilesToUpload w g ys)
        \<and> fst (snd (getFilesToUpload w g (xs @ p # ys))) =
            fst (snd (getFilesToUpload w g xs)) @ [New p (dryRun g)]
              @ fst (snd (getFilesToUpload w g ys))
        \<and> (\<forall>f. CallSize f \<notin> set (fst (getFilesToUpload w g files))))"
proof -
  have a: "maxFilesize w = KB w * 50" by (simp add: maxFilesize_def)
  have b: "fst (getFilesToUpload w g (xs @ p # ys)) =
            fst (getFilesToUpload w g xs)
              @ [CallExists (New p (dryRun g)), CallSize (New p (dryRun g)),
                 WarnTooLarge p (maxFilesize w) (Size w (New p (dryRun g)))]
              @ fst (getFilesToUpload w g ys)
        \<and> fst (snd (getFilesToUpload w g (xs @ p # ys))) =
            fst (snd (getFilesToUpload w g xs)) @ fst (snd (getFilesToUpload w g ys))"
    if "\<not> allowLargeFiles g"
    by (simp add: selector_trace selector_files checkFile_too_large[OF assms that])
  have c: "p \<notin> FilePath ` set (fst (snd (getFilesToUpload w g files)))" if "\<not> allowLargeFiles g"
    using assms(2) that by (auto simp: selector_files_filter New_def)
  have d: "fst (getFilesToUpload w g (xs @ p # ys)) =
            fst (getFilesToUpload w g xs) @ [CallExists (New p (dryRun g))]
              @ fst (getFilesToUpload w g ys)
        \<and> fst (snd (getFilesToUpload w g (xs @ p # ys))) =
            fst (snd (getFilesToUpload w g xs)) @ [New p (dryRun g)]
              @ fst (snd (getFilesToUpload w g ys))"
    if "allowLargeFiles g"
    by (simp add: selector_trace selector_files checkFile_override[OF assms(1) that])
  have e: "CallSize f \<notin> set (fst (getFilesToUpload w g files))" if "allowLargeFiles g" for f
    using that by (simp add: selector_trace checkFile_override_no_size)
  from a b c d e show ?thesis by blast
qed

theorem oversized_file_witness:
  "snd (Exists exampleWorld (New ''big.bin'' False)) = None
   \<and> maxFilesize exampleWorld < Size exampleWorld (New ''big.bin'' False)
   \<and> \<not> allowLargeFiles exampleGlobals
   \<and> allowLargeFiles (exampleGlobals\<lparr>allowLargeFiles := True\<rparr>)
   \<and> maxFilesize exampleWorld = 51200
   \<and> fst (snd (getFilesToUpload exampleWorld exampleGlobals [''a.txt'', ''missing.txt'', ''big.bin'']))
        = [New ''a.txt'' False]
   \<and> ''big.bin'' \<notin> FilePath ` set (fst (snd (getFilesToUpload exampleWorld exampleGlobals
        [''a.txt'', ''missing.txt'', ''big.bin''])))
   \<and> WarnTooLarge ''big.bin'' 51200 102400 \<in> set (fst (getFilesToUpload exampleWorld exampleGlobals
        [''a.txt'', ''missing.txt'', ''big.bin'']))
   \<and> fst (snd (getFilesToUpload exampleWorld (exampleGlobals\<lparr>allowLargeFiles := True\<rparr>)
        [''a.txt'', ''missing.txt'', ''big.bin''])) = [New ''a.txt'' False, New ''big.bin'' False]
   \<and> CallSize (New ''big.bin'' False) \<notin> set (fst (getFilesToUpload exampleWorld
        (exampleGlobals\<lparr>allowLargeFiles := True\<rparr>) [''a.txt'', ''missing.txt'', ''big.bin'']))"
proof -
  have d: "dryRun exampleGlobals = False" "dryRun (exampleGlobals\<lparr>allowLargeFiles := True\<rparr>) = False"
    by (simp_all add: exampleGlobals_def)
  have h1: "snd (Exists exampleWorld (New ''big.bin'' False)) = None"
    by (simp add: exampleWorld_def New_def)
  have h2: "maxFilesize exampleWorld < Size exampleWorld (New ''big.bin'' False)"
    by (simp add: exampleWorld_def New_def maxFilesize_def)
  have h3: "\<not> allowLargeFiles exampleGlobals" by (simp add: exampleGlobals_def)
  have h4: "allowLargeFiles (exampleGlobals\<lparr>allowLargeFiles := True\<rparr>)" by simp
  have m: "maxFilesize exampleWorld = 51200" by (simp add: exampleWorld_def maxFilesize_def)
  note t1 = oversized_file[of exampleWorld "''big.bin''" exampleGlobals "[''a.txt'', ''missing.txt'']"
       "[]" "[''a.txt'', ''missing.txt'', ''big.bin'']", unfolded d, OF h1 h2]
  note t2 = oversized_file[of exampleWorld "''big.bin''" "exampleGlobals\<lparr>allowLargeFiles := True\<rparr>"
       "[''a.txt'', ''missing.txt'']" "[]" "[''a.txt'', ''missing.txt'', ''big.bin'']",
       unfolded d, OF h1 h2]
  from t1 h3 have a: "''big.bin'' \<notin> FilePath ` set (fst (snd (getFilesToUpload exampleWorld
        exampleGlobals [''a.txt'', ''missing.txt'', ''big.bin''])))"
    by blast
  from t2 h4 have b: "CallSize (New ''big.bin'' False) \<notin> set (fst (getFilesToUpload exampleWorld
        (exampleGlobals\<lparr>allowLargeFiles := True\<rparr>) [''a.txt'', ''missing.txt'', ''big.bin'']))"
    by blast
  have c: "fst (snd (getFilesToUpload exampleWorld exampleGlobals [''a.txt'', ''missing.txt'', ''big.bin'']))
        = [New ''a.txt'' False]"
    by (simp add: example_selected)
  have e: "WarnTooLarge ''big.bin'' 51200 102400 \<in> set (fst (getFilesToUpload exampleWorld
        exampleGlobals [''a.txt'', ''missing.txt'', ''big.bin'']))"
    by (simp add: example_selected)
  have f: "fst (snd (getFilesToUpload exampleWorld (exampleGlobals\<lparr>allowLargeFiles := True\<rparr>)
        [''a.txt'', ''missing.txt'', ''big.bin''])) = [New ''a.txt'' False, New ''big.bin'' False]"
    by (simp add: example_selected_large)
  from h1 h2 h3 h4 m a b c e f show ?thesis by blast
qed

text \<open>
  C3. When no file is left, \<^verbatim>\<open>getFilesToUpload\<close> returns the error
  \<^verbatim>\<open>go-gist: no files to upload\<close>, \<^verbatim>\<open>main\<close> ends the process with status 1 through
  \<^verbatim>\<open>log.Fatal\<close>, and \<^verbatim>\<open>processFiles\<close> is not called: the run does not depend on the
  schedule, no channel is made, no goroutine started and no file uploaded.
\<close>

theorem no_files_is_fatal:
  assumes "fst (snd (getFilesToUpload w g args)) = []"
  shows "snd (snd (getFilesToUpload w g args)) = Some ''go-gist: no files to upload''
     \<and> snd (main w g args sched) = Exit 1
     \<and> main w g args sched = main w g args []
     \<and> (snd (checkForArgumentErrors g (length args)) = Continue () \<longrightarrow>
          fst (main w g args sched) =
            fst (checkForArgumentErrors g (length args)) @ fst (getFilesToUpload w g args)
              @ [Fatal ''go-gist: no files to upload''])
     \<and> (\<forall>n. MakeChan n \<notin> set (fst (main w g args sched)))
     \<and> (\<forall>f. Go f \<notin> set (fst (main w g args sched))
            \<and> CallUpload f \<notin> set (fst (main w g args sched)))"
proof -
  note m = main_no_files[OF assms]
  have a: "snd (snd (getFilesToUpload w g args)) = Some ''go-gist: no files to upload''"
    using assms by (simp add: selector_error)
  have b: "snd (main w g args sched) = Exit 1"
    by (simp add: m split: proc.splits)
  have c: "main w g args sched = main w g args []"
    by (simp add: m)
  have d: "fst (main w g args sched) =
            fst (checkForArgumentErrors g (length args)) @ fst (getFilesToUpload w g args)
              @ [Fatal ''go-gist: no files to upload'']"
    if "snd (checkForArgumentErrors g (length args)) = Continue ()"
    using that by (simp add: m)
  have e: "MakeChan n \<notin> set (fst (main w g args sched))" for n
    using check_events[of "MakeChan n" g "length args"] selector_events[of "MakeChan n" w g args]
    by (auto simp: m split: proc.splits)
  have f: "Go f \<notin> set (fst (main w g args sched)) \<and> CallUpload f \<notin> set (fst (main w g args sched))" for f
    using main_dispatched[of f w g args sched] assms by auto
  from a b c d e f show ?thesis by blast
qed

theorem no_files_is_fatal_witness:
  "fst (snd (getFilesToUpload exampleWorld exampleGlobals [''missing.txt'', ''big.bin''])) = []
   \<and> main exampleWorld exampleGlobals [''missing.txt'', ''big.bin''] [MainStep, MainStep]
       = ([CallExists (New ''missing.txt'' False), WarnNotFound ''missing.txt'',
           CallExists (New ''big.bin'' False), CallSize (New ''big.bin'' False),
           WarnTooLarge ''big.bin'' 51200 102400, Fatal ''go-gist: no files to upload''], Exit 1)"
proof -
  have sel: "getFilesToUpload exampleWorld exampleGlobals [''missing.txt'', ''big.bin'']
     = ([CallExists (New ''missing.txt'' False), WarnNotFound ''missing.txt'',
           CallExists (New ''big.bin'' False), CallSize (New ''big.bin'' False),
           WarnTooLarge ''big.bin'' 51200 102400], [], Some ''go-gist: no files to upload'')"
    by (simp add: exampleWorld_def exampleGlobals_def New_def getFilesToUpload_def checkFile_def
        maxFilesize_def Let_def)
  then have h: "fst (snd (getFilesToUpload exampleWorld exampleGlobals [''missing.txt'', ''big.bin''])) = []"
    by simp
  have c4: "snd (checkForArgumentErrors exampleGlobals (length [''missing.txt'', ''big.bin''])) = Continue ()"
    by (simp add: checkForArgumentErrors_def exampleGlobals_def)
  have ctr: "fst (checkForArgumentErrors exampleGlobals (length [''missing.txt'', ''big.bin''])) = []"
    by (simp add: checkForArgumentErrors_def exampleGlobals_def)
  note t = no_files_is_fatal[OF h, of "[MainStep, MainStep]"]
  from t have st: "snd (main exampleWorld exampleGlobals [''missing.txt'', ''big.bin''] [MainStep, MainStep]) = Exit 1"
    by blast
  from t c4 have "fst (main exampleWorld exampleGlobals [''missing.txt'', ''big.bin''] [MainStep, MainStep])
     = fst (checkForArgumentErrors exampleGlobals (length [''missing.txt'', ''big.bin'']))
         @ fst (getFilesToUpload exampleWorld exampleGlobals [''missing.txt'', ''big.bin''])
         @ [Fatal ''go-gist: no files to upload'']"
    by blast
  then have tr: "fst (main exampleWorld exampleGlobals [''missing.txt'', ''big.bin''] [MainStep, MainStep])
     = [CallExists (New ''missing.txt'' False), WarnNotFound ''missing.txt'',
           CallExists (New ''big.bin'' False), CallSize (New ''big.bin'' False),
           WarnTooLarge ''big.bin'' 51200 102400, Fatal ''go-gist: no files to upload'']"
    unfolding ctr sel by simp
  from st tr have "main exampleWorld exampleGlobals [''missing.txt'', ''big.bin''] [MainStep, MainStep]
       = ([CallExists (New ''missing.txt'' False), WarnNotFound ''missing.txt'',
           CallExists (New ''big.bin'' False), CallSize (New ''big.bin'' False),
           WarnTooLarge ''big.bin'' 51200 102400, Fatal ''go-gist: no files to upload''], Exit 1)"
    by (simp add: prod_eq_iff)
  with h show ?thesis by blast
qed

text \<open>
  C6. \<^verbatim>\<open>checkForArgumentErrors\<close> lets the program go on exactly when one of
  \<^verbatim>\<open>-upload\<close> and \<^verbatim>\<open>-dryrun\<close> is set and \<^verbatim>\<open>-upload\<close> comes with at least one path.
  With neither flag the process prints the usage and ends with \<^verbatim>\<open>Nothing to do\<close>; with
  both flags, and with \<^verbatim>\<open>-upload\<close> and no path, it ends with the message of that case.
  In each case the status is 1 and the trace of the whole process, on a command line
  that parses to these flags, holds nothing but the usage and the fatal message: no call
  into the filesystem and no upload.
\<close>

theorem argument_validation:
  "(snd (checkForArgumentErrors g (length args)) = Continue ()
      \<longleftrightarrow> upload g \<noteq> dryRun g \<and> (upload g \<longrightarrow> args \<noteq> []))
   \<and> (\<not> upload g \<and> \<not> dryRun g \<longrightarrow>
         main w g args sched = ([Usage, Fatal ''Nothing to do''], Exit 1))
   \<and> (upload g \<and> dryRun g \<longrightarrow>
         main w g args sched = ([Fatal ''Can't upload and dryrun at the same time''], Exit 1))
   \<and> (upload g \<and> \<not> dryRun g \<and> args = [] \<longrightarrow>
         main w g args sched = ([Fatal ''Selected -upload with no files''], Exit 1))
   \<and> (flagParse cmdline = Parsed up dry large args \<and> (up = dry \<or> (up \<and> args = [])) \<longrightarrow>
         snd (gogist w env cmdline sched) = Exit 1
       \<and> (\<forall>e \<in> set (fst (gogist w env cmdline sched)).
             e = Usage \<or> (\<exists>m. e = Fatal m)))"
proof -
  have a: "snd (checkForArgumentErrors g (length args)) = Continue ()
      \<longleftrightarrow> upload g \<noteq> dryRun g \<and> (upload g \<longrightarrow> args \<noteq> [])"
    by (simp add: check_passes_iff)
  have b: "main w g args sched = ([Usage, Fatal ''Nothing to do''], Exit 1)"
    if "\<not> upload g \<and> \<not> dryRun g"
    using that by (simp add: main_def checkForArgumentErrors_def)
  have c: "main w g args sched = ([Fatal ''Can't upload and dryrun at the same time''], Exit 1)"
    if "upload g \<and> dryRun g"
    using that by (simp add: main_def checkForArgumentErrors_def)
  have d: "main w g args sched = ([Fatal ''Selected -upload with no files''], Exit 1)"
    if "upload g \<and> \<not> dryRun g \<and> args = []"
    using that by (simp add: main_def checkForArgumentErrors_def)
  have e: "snd (gogist w env cmdline sched) = Exit 1
       \<and> (\<forall>e \<in> set (fst (gogist w env cmdline sched)).
             e = Usage \<or> (\<exists>m. e = Fatal m))"
    if "flagParse cmdline = Parsed up dry large args \<and> (up = dry \<or> (up \<and> args = []))"
    using that
    by (auto simp: gogist_def init_def Let_def main_def checkForArgumentErrors_def)
  from a b c d e show ?thesis by blast
qed

theorem argument_validation_witness:
  "gogist exampleWorld tokenEnv [''a.txt''] [MainStep]
     = ([Usage, Fatal ''Nothing to do''], Exit 1)
   \<and> gogist exampleWorld tokenEnv [''-upload'', ''-dryrun'', ''a.txt''] [MainStep]
     = ([Fatal ''Can't upload and dryrun at the same time''], Exit 1)
   \<and> gogist exampleWorld tokenEnv [''-upload''] [MainStep]
     = ([Fatal ''Selected -upload with no files''], Exit 1)
   \<and> snd (checkForArgumentErrors exampleGlobals (length [''a.txt''])) = Continue ()"
proof -
  define g where "g = (\<lambda>up dry. \<lparr>upload = up, dryRun = dry, allowLargeFiles = False, githubToken = ''token''\<rparr>)"
  have g: "upload (g up dry) = up" "dryRun (g up dry) = dry" for up dry
    by (simp_all add: g_def)
  have p1: "flagParse [''a.txt''] = Parsed False False False [''a.txt'']"
    by (simp add: parse_defs)
  have p2: "flagParse [''-upload'', ''-dryrun'', ''a.txt''] = Parsed True True False [''a.txt'']"
    by (simp add: parse_defs)
  have p3: "flagParse [''-upload''] = Parsed True False False []"
    by (simp add: parse_defs)
  have i1: "init tokenEnv [''a.txt''] = ([], Continue (g False False, [''a.txt'']))"
    by (simp add: init_def p1 tokenEnv_def Getenv_def g_def)
  have i2: "init tokenEnv [''-upload'', ''-dryrun'', ''a.txt''] = ([], Continue (g True True, [''a.txt'']))"
    by (simp add: init_def p2 tokenEnv_def Getenv_def g_def)
  have i3: "init tokenEnv [''-upload''] = ([], Continue (g True False, []))"
    by (simp add: init_def p3 tokenEnv_def Getenv_def g_def)
  from argument_validation[of "g False False" "[''a.txt'']" exampleWorld "[MainStep]"]
  have m1: "main exampleWorld (g False False) [''a.txt''] [MainStep] = ([Usage, Fatal ''Nothing to do''], Exit 1)"
    by (simp add: g)
  from argument_validation[of "g True True" "[''a.txt'']" exampleWorld "[MainStep]"]
  have m2: "main exampleWorld (g True True) [''a.txt''] [MainStep]
      = ([Fatal ''Can't upload and dryrun at the same time''], Exit 1)"
    by (simp add: g)
  from argument_validation[of "g True False" "[]" exampleWorld "[MainStep]"]
  have m3: "main exampleWorld (g True False) [] [MainStep]
      = ([Fatal ''Selected -upload with no files''], Exit 1)"
    by (simp add: g)
  from argument_validation[of exampleGlobals "[''a.txt'']"]
  have m4: "snd (checkForArgumentErrors exampleGlobals (length [''a.txt''])) = Continue ()"
    by (simp add: exampleGlobals_def)
  from m1 m2 m3 m4 show ?thesis by (simp add: gogist_def i1 i2 i3)
qed

text \<open>
  C8, as stated: when \<^verbatim>\<open>GITHUB_API_TOKEN\<close> is not set or is empty, the process ends
  fatally with a message at startup. This fails on the command line \<^verbatim>\<open>-h\<close>:
  \<^verbatim>\<open>flag.Parse()\<close> on line 35 runs before the token is read on line 37, prints the usage
  and ends the process with status 0, and the message of line 39 is never logged.
\<close>

theorem missing_token_help_counterexample:
  "noTokenEnv GitHubAPITokenEnv = None
   \<and> gogist exampleWorld noTokenEnv [''-h''] [MainStep] = ([Usage], Exit 0)"
proof -
  have p: "flagParse [''-h''] = ParseExit [Usage] 0"
    by (simp add: parse_defs)
  show ?thesis
    by (simp add: noTokenEnv_def gogist_def init_def p)
qed

text \<open>
  C8, amended. When \<^verbatim>\<open>GITHUB_API_TOKEN\<close> is not set or is empty, the process ends in
  \<^verbatim>\<open>init()\<close>, whatever the command line: the arguments are not validated, no file is
  looked at, nothing is uploaded. Once \<^verbatim>\<open>flag.Parse()\<close> has returned, the process ends
  with status 1 and the message of line 39, and this is all it does. When
  \<^verbatim>\<open>flag.Parse()\<close> itself ends the process, it does so before the token is read: with
  status 0 and the usage alone when help is asked for, with status 2 otherwise.
\<close>

theorem missing_token_is_fatal:
  assumes "env GitHubAPITokenEnv = None \<or> env GitHubAPITokenEnv = Some []"
  shows "GitHubAPITokenEnv = ''GITHUB_API_TOKEN''
     \<and> (\<forall>up dry large args. flagParse cmdline = Parsed up dry large args \<longrightarrow>
           gogist w env cmdline sched
             = ([Fatal ''Environment variable required but missing: GITHUB_API_TOKEN''], Exit 1))
     \<and> (\<forall>evs n. flagParse cmdline = ParseExit evs n \<longrightarrow>
           gogist w env cmdline sched = (evs, Exit n) \<and> (n = 0 \<and> evs = [Usage] \<or> n = 2))
     \<and> (\<exists>n. init env cmdline = (fst (gogist w env cmdline sched), Exited n)
             \<and> snd (gogist w env cmdline sched) = Exit n)"
proof -
  have t: "Getenv env GitHubAPITokenEnv = []"
    using assms by (auto simp: Getenv_def)
  have a: "GitHubAPITokenEnv = ''GITHUB_API_TOKEN''"
    by (simp add: GitHubAPITokenEnv_def)
  have b: "gogist w env cmdline sched
             = ([Fatal ''Environment variable required but missing: GITHUB_API_TOKEN''], Exit 1)"
    if "flagParse cmdline = Parsed up dry large args" for up dry large args
    using that t by (simp add: gogist_def init_def)
  have c: "gogist w env cmdline sched = (evs, Exit n) \<and> (n = 0 \<and> evs = [Usage] \<or> n = 2)"
    if "flagParse cmdline = ParseExit evs n" for evs n
    using that flagParse_exit[OF that] by (simp add: gogist_def init_def)
  have d: "\<exists>n. init env cmdline = (fst (gogist w env cmdline sched), Exited n)
             \<and> snd (gogist w env cmdline sched) = Exit n"
    using t by (cases "flagParse cmdline") (simp_all add: gogist_def init_def)
  from a b c d show ?thesis by blast
qed

theorem missing_token_is_fatal_witness:
  "gogist exampleWorld noTokenEnv [''-upload'', ''a.txt''] [MainStep]
     = ([Fatal ''Environment variable required but missing: GITHUB_API_TOKEN''], Exit 1)
   \<and> gogist exampleWorld emptyTokenEnv [''-upload'', ''a.txt''] [MainStep]
     = ([Fatal ''Environment variable required but missing: GITHUB_API_TOKEN''], Exit 1)
   \<and> gogist exampleWorld noTokenEnv [''-bogus''] [MainStep]
     = ([FlagFail (NotDefined ''bogus''), Usage], Exit 2)"
proof -
  have h1: "noTokenEnv GitHubAPITokenEnv = None \<or> noTokenEnv GitHubAPITokenEnv = Some []"
    by (simp add: noTokenEnv_def)
  have h2: "emptyTokenEnv GitHubAPITokenEnv = None \<or> emptyTokenEnv GitHubAPITokenEnv = Some []"
    by (simp add: emptyTokenEnv_def)
  have p1: "flagParse [''-upload'', ''a.txt''] = Parsed True False False [''a.txt'']"
    by (simp add: parse_defs)
  have p2: "flagParse [''-bogus''] = ParseExit [FlagFail (NotDefined ''bogus''), Usage] 2"
    by (simp add: parse_defs)
  from missing_token_is_fatal[of noTokenEnv "[''-upload'', ''a.txt'']" exampleWorld "[MainStep]"] h1 p1
  have a: "gogist exampleWorld noTokenEnv [''-upload'', ''a.txt''] [MainStep]
     = ([Fatal ''Environment variable required but missing: GITHUB_API_TOKEN''], Exit 1)"
    by blast
  from missing_token_is_fatal[of emptyTokenEnv "[''-upload'', ''a.txt'']" exampleWorld "[MainStep]"] h2 p1
  have b: "gogist exampleWorld emptyTokenEnv [''-upload'', ''a.txt''] [MainStep]
     = ([Fatal ''Environment variable required but missing: GITHUB_API_TOKEN''], Exit 1)"
    by blast
  from missing_token_is_fatal[of noTokenEnv "[''-bogus'']" exampleWorld "[MainStep]"] h1 p2
  have c: "gogist exampleWorld noTokenEnv [''-bogus''] [MainStep]
     = ([FlagFail (NotDefined ''bogus''), Usage], Exit 2)"
    by blast
  from a b c show ?thesis by blast
qed

text \<open>
  C9. The slice returned by \<^verbatim>\<open>getFilesToUpload\<close> is made of the descriptors
  \<^verbatim>\<open>file.New(f, dryRun)\<close> of the paths that pass the two checks, in the order of the
  input: its paths are a subsequence of the input, every descriptor carries the
  \<^verbatim>\<open>dryRun\<close> flag of the run, and each is the value its constructor returned.
\<close>

theorem selector_keeps_order:
  "fst (snd (getFilesToUpload w g files)) =
     map (\<lambda>p. New p (dryRun g))
       (filter (\<lambda>p. snd (Exists w (New p (dryRun g))) = None
                   \<and> (allowLargeFiles g \<or> Size w (New p (dryRun g)) \<le> maxFilesize w)) files)
   \<and> subseq (map FilePath (fst (snd (getFilesToUpload w g files)))) files
   \<and> map DryRun (fst (snd (getFilesToUpload w g files)))
       = replicate (length (fst (snd (getFilesToUpload w g files)))) (dryRun g)
   \<and> map (\<lambda>f. New (FilePath f) (dryRun g)) (fst (snd (getFilesToUpload w g files)))
       = fst (snd (getFilesToUpload w g files))"
proof -
  define keep where "keep = (\<lambda>p. snd (Exists w (New p (dryRun g))) = None
                   \<and> (allowLargeFiles g \<or> Size w (New p (dryRun g)) \<le> maxFilesize w))"
  have out: "fst (snd (getFilesToUpload w g files)) = map (\<lambda>p. New p (dryRun g)) (filter keep files)"
    unfolding keep_def by (rule selector_files_filter)
  have paths: "map FilePath (fst (snd (getFilesToUpload w g files))) = filter keep files"
    unfolding out by (simp add: New_def comp_def)
  have "subseq (filter keep files) files" by simp
  then have sub: "subseq (map FilePath (fst (snd (getFilesToUpload w g files)))) files"
    by (simp only: paths)
  have flags: "map DryRun (fst (snd (getFilesToUpload w g files)))
       = replicate (length (fst (snd (getFilesToUpload w g files)))) (dryRun g)"
    unfolding out by (simp add: New_def comp_def map_replicate_const)
  have same: "map (\<lambda>f. New (FilePath f) (dryRun g)) (fst (snd (getFilesToUpload w g files)))
       = fst (snd (getFilesToUpload w g files))"
    unfolding out by (simp add: New_def comp_def)
  from out sub flags same show ?thesis unfolding keep_def by blast
qed

theorem selector_keeps_order_witness:
  "fst (snd (getFilesToUpload exampleWorld (exampleGlobals\<lparr>allowLargeFiles := True\<rparr>)
        [''a.txt'', ''missing.txt'', ''big.bin''])) = [New ''a.txt'' False, New ''big.bin'' False]
   \<and> subseq [''a.txt'', ''big.bin''] [''a.txt'', ''missing.txt'', ''big.bin'']"
proof -
  have f: "fst (snd (getFilesToUpload exampleWorld (exampleGlobals\<lparr>allowLargeFiles := True\<rparr>)
        [''a.txt'', ''missing.txt'', ''big.bin''])) = [New ''a.txt'' False, New ''big.bin'' False]"
    by (simp add: example_selected_large)
  from selector_keeps_order[of exampleWorld "exampleGlobals\<lparr>allowLargeFiles := True\<rparr>"
      "[''a.txt'', ''missing.txt'', ''big.bin'']"]
  have "subseq (map FilePath (fst (snd (getFilesToUpload exampleWorld
      (exampleGlobals\<lparr>allowLargeFiles := True\<rparr>) [''a.txt'', ''missing.txt'', ''big.bin'']))))
      [''a.txt'', ''missing.txt'', ''big.bin'']"
    by blast
  then have "subseq [''a.txt'', ''big.bin''] [''a.txt'', ''missing.txt'', ''big.bin'']"
    by (simp add: f New_def)
  with f show ?thesis by blast
qed

text \<open>
  C10. With \<^verbatim>\<open>-dryrun\<close> alone and no path, \<^verbatim>\<open>checkForArgumentErrors\<close> lets the
  program go on (only \<^verbatim>\<open>-upload\<close> needs a path), \<^verbatim>\<open>getFilesToUpload\<close> returns the
  error \<^verbatim>\<open>go-gist: no files to upload\<close>, and the process ends with status 1 before
  \<^verbatim>\<open>processFiles\<close> is called.
\<close>

theorem dryrun_without_files:
  assumes "dryRun g" and "\<not> upload g"
  shows "checkForArgumentErrors g (length ([] :: string list))
           = ([Print ''Doing dry run, nothing will be uploaded''], Continue ())
     \<and> getFilesToUpload w g [] = ([], [], Some ''go-gist: no files to upload'')
     \<and> main w g [] sched
           = ([Print ''Doing dry run, nothing will be uploaded'',
               Fatal ''go-gist: no files to upload''], Exit 1)
     \<and> (init env cmdline = ([], Continue (g, [])) \<longrightarrow>
          gogist w env cmdline sched
            = ([Print ''Doing dry run, nothing will be uploaded'',
                Fatal ''go-gist: no files to upload''], Exit 1))"
  using assms by (simp add: checkForArgumentErrors_def getFilesToUpload_def main_def gogist_def)

theorem dryrun_without_files_witness:
  "gogist exampleWorld tokenEnv [''-dryrun''] [MainStep]
     = ([Print ''Doing dry run, nothing will be uploaded'',
         Fatal ''go-gist: no files to upload''], Exit 1)"
proof -
  define g where "g = \<lparr>upload = False, dryRun = True, allowLargeFiles = False, githubToken = ''token''\<rparr>"
  have p: "flagParse [''-dryrun''] = Parsed False True False []"
    by (simp add: parse_defs)
  have i: "init tokenEnv [''-dryrun''] = ([], Continue (g, []))"
    by (simp add: init_def p tokenEnv_def Getenv_def g_def)
  have "dryRun g" "\<not> upload g" by (simp_all add: g_def)
  from dryrun_without_files[OF this, of exampleWorld "[MainStep]" tokenEnv "[''-dryrun'']"] i
  show ?thesis by blast
qed

text \<open>
  C4. Without dry run, under every schedule: the channel has the capacity of the number
  of files and stays open; the caller starts one goroutine per file it visits, in the
  order of the files; a goroutine standing at the send can always send, so no sender
  blocks; when \<^verbatim>\<open>processFiles\<close> has returned, the caller has received as many values as
  there are files, and they are the outcomes of the files, each once, in whatever order
  they arrived, with nothing left in the buffer or in a goroutine. Before the return
  some step can always move, every step that moves brings the return closer, and every
  run can be continued until \<^verbatim>\<open>processFiles\<close> returns.
\<close>

theorem upload_collects_all:
  assumes "\<not> dryRun g" and "s = exec w g sched (start g files)"
  shows "chanCap s = length files \<and> \<not> chanClosed s \<and> \<not> panicked s
     \<and> (\<forall>i < length (sending s). \<exists>s'. fire w g (TaskSend i) s = Some s')
     \<and> filter isGo (trace s) @ map Go (toSpawn s) = map Go files
     \<and> (returned s \<longrightarrow>
           filter isGo (trace s) = map Go files
         \<and> length (received s) = length files
         \<and> mset (received s) = mset (map (outcomeOf w) files)
         \<and> started s = [] \<and> sending s = [] \<and> chanBuf s = [])
     \<and> snd (processFiles w g files sched) = (if returned s then Some (Continue ()) else None)
     \<and> (\<not> returned s \<longrightarrow> (\<exists>a s'. fire w g a s = Some s'))
     \<and> (\<forall>a s'. fire w g a s = Some s' \<longrightarrow> weight s' < weight s)
     \<and> (\<exists>sched'. returned (exec w g (sched @ sched') (start g files)))"
proof -
  have inv: "uploadInv w files s"
    using runInv_reach[of w g files sched] assms by (simp add: runInv_def)
  have p: "\<exists>a s'. fire w g a s = Some s'" if "\<not> returned s"
    using progress_upload[OF inv assms(1) that] .
  have q: "weight s' < weight s" if "fire w g a s = Some s'" for a s'
    using weight_fire[OF that] .
  have tinv: "traceInv w g files s"
    using traceInv_reach[of w g files sched] assms by simp
  have a: "chanCap s = length files \<and> \<not> chanClosed s \<and> \<not> panicked s"
    using inv by (simp add: uploadInv_def)
  have b: "\<exists>s'. fire w g (TaskSend i) s = Some s'" if "i < length (sending s)" for i
    using uploadInv_send_free[OF inv that] that a
    by (simp add: fire_def taskSend_def)
  have c: "filter isGo (trace s) @ map Go (toSpawn s) = map Go files"
    using tinv assms(1) by (simp add: traceInv_def)
  have d: "filter isGo (trace s) = map Go files
         \<and> length (received s) = length files
         \<and> mset (received s) = mset (map (outcomeOf w) files)
         \<and> started s = [] \<and> sending s = [] \<and> chanBuf s = []" if "returned s"
    using upload_at_return[OF inv that] c inv that by (simp add: uploadInv_def)
  have e: "snd (processFiles w g files sched) = (if returned s then Some (Continue ()) else None)"
    using a assms(2) by (simp add: processFiles_def Let_def)
  from a b c d e p q completes_from_start[of w g sched files] show ?thesis by blast
qed

theorem upload_collects_all_witness:
  "\<not> dryRun exampleGlobals
   \<and> returned (exec exampleWorld exampleGlobals
        [MainStep, MainStep, TaskUpload 1, TaskUpload 0, TaskSend 0, TaskSend 0,
         MainStep, MainStep, MainStep] (start exampleGlobals [fileA, fileB]))
   \<and> received (exec exampleWorld exampleGlobals
        [MainStep, MainStep, TaskUpload 1, TaskUpload 0, TaskSend 0, TaskSend 0,
         MainStep, MainStep, MainStep] (start exampleGlobals [fileA, fileB]))
       = [FileStatus fileB None, FileStatus fileA (Some ''create failed'')]
   \<and> mset [FileStatus fileB None, FileStatus fileA (Some ''create failed'')]
       = mset (map (outcomeOf exampleWorld) [fileA, fileB])
   \<and> sending (exec exampleWorld exampleGlobals [MainStep, MainStep, TaskUpload 1]
        (start exampleGlobals [fileA, fileB])) = [FileStatus fileB None]
   \<and> (\<exists>s'. fire exampleWorld exampleGlobals (TaskSend 0)
          (exec exampleWorld exampleGlobals [MainStep, MainStep, TaskUpload 1]
             (start exampleGlobals [fileA, fileB])) = Some s')
   \<and> \<not> returned (exec exampleWorld exampleGlobals [MainStep, MainStep, TaskUpload 1]
          (start exampleGlobals [fileA, fileB]))
   \<and> weight (exec exampleWorld exampleGlobals [MainStep, MainStep, TaskUpload 1, TaskSend 0]
          (start exampleGlobals [fileA, fileB]))
       < weight (exec exampleWorld exampleGlobals [MainStep, MainStep, TaskUpload 1]
          (start exampleGlobals [fileA, fileB]))"
proof -
  have h: "\<not> dryRun exampleGlobals" by (simp add: exampleGlobals_def)
  have r: "returned (exec exampleWorld exampleGlobals
        [MainStep, MainStep, TaskUpload 1, TaskUpload 0, TaskSend 0, TaskSend 0,
         MainStep, MainStep, MainStep] (start exampleGlobals [fileA, fileB]))"
    by code_simp
  have v: "received (exec exampleWorld exampleGlobals
        [MainStep, MainStep, TaskUpload 1, TaskUpload 0, TaskSend 0, TaskSend 0,
         MainStep, MainStep, MainStep] (start exampleGlobals [fileA, fileB]))
       = [FileStatus fileB None, FileStatus fileA (Some ''create failed'')]"
    by code_simp
  have p: "sending (exec exampleWorld exampleGlobals [MainStep, MainStep, TaskUpload 1]
        (start exampleGlobals [fileA, fileB])) = [FileStatus fileB None]"
    by code_simp
  from upload_collects_all[OF h refl, of exampleWorld
        "[MainStep, MainStep, TaskUpload 1, TaskUpload 0, TaskSend 0, TaskSend 0,
          MainStep, MainStep, MainStep]" "[fileA, fileB]"] r v
  have m: "mset [FileStatus fileB None, FileStatus fileA (Some ''create failed'')]
       = mset (map (outcomeOf exampleWorld) [fileA, fileB])"
    by simp
  from upload_collects_all[OF h refl, of exampleWorld "[MainStep, MainStep, TaskUpload 1]"
        "[fileA, fileB]"] p
  have f: "\<exists>s'. fire exampleWorld exampleGlobals (TaskSend 0)
          (exec exampleWorld exampleGlobals [MainStep, MainStep, TaskUpload 1]
             (start exampleGlobals [fileA, fileB])) = Some s'"
    by simp
  have n: "\<not> returned (exec exampleWorld exampleGlobals [MainStep, MainStep, TaskUpload 1]
          (start exampleGlobals [fileA, fileB]))"
    by code_simp
  have k: "fire exampleWorld exampleGlobals (TaskSend 0)
          (exec exampleWorld exampleGlobals [MainStep, MainStep, TaskUpload 1]
             (start exampleGlobals [fileA, fileB]))
        = Some (exec exampleWorld exampleGlobals [MainStep, MainStep, TaskUpload 1, TaskSend 0]
             (start exampleGlobals [fileA, fileB]))"
    by code_simp
  from upload_collects_all[OF h refl, of exampleWorld "[MainStep, MainStep, TaskUpload 1]"
        "[fileA, fileB]"] k
  have d: "weight (exec exampleWorld exampleGlobals [MainStep, MainStep, TaskUpload 1, TaskSend 0]
          (start exampleGlobals [fileA, fileB]))
       < weight (exec exampleWorld exampleGlobals [MainStep, MainStep, TaskUpload 1]
          (start exampleGlobals [fileA, fileB]))"
    by blast
  from h r v m p f n d show ?thesis by blast
qed

text \<open>
  C5. With dry run, for the files \<^verbatim>\<open>getFilesToUpload\<close> returned, when there is at least
  one, and with \<^verbatim>\<open>Upload\<close> as the specification describes it: under every schedule no
  goroutine is started and none exists, no remote create call is made, the channel is
  made and closed before anything else and stays empty, the caller receives zero values
  only, and when \<^verbatim>\<open>processFiles\<close> has returned each file has been described once, in
  order, and nothing else has happened; every run can be continued until it returns.
\<close>

theorem dry_run_spawns_nothing:
  assumes "dryRun g" and "files = fst (snd (getFilesToUpload w g args))" and "files \<noteq> []"
    and "Upload w = Upload_spec remote" and "s = exec w g sched (start g files)"
  shows "started s = [] \<and> sending s = [] \<and> chanBuf s = [] \<and> chanClosed s \<and> \<not> panicked s
     \<and> (\<exists>t. trace s = MakeChan (length files) # CloseChan # t)
     \<and> (\<forall>f. Go f \<notin> set (trace s) \<and> InUpload f RemoteCreate \<notin> set (trace s))
     \<and> set (received s) \<subseteq> {zeroStatus}
     \<and> (returned s \<longrightarrow>
           trace s = MakeChan (length files) # CloseChan
                       # concat (map (\<lambda>f. [CallUpload f, InUpload f Describe]) files))
     \<and> (\<exists>sched'. returned (exec w g (sched @ sched') (start g files)))"
proof -
  have inv: "dryInv w files s"
    using runInv_reach[of w g files sched] assms(1,5) by (simp add: runInv_def)
  have a: "started s = [] \<and> sending s = [] \<and> chanBuf s = [] \<and> chanClosed s \<and> \<not> panicked s
       \<and> set (received s) \<subseteq> {zeroStatus}"
    using inv by (simp add: dryInv_def)
  have b: "\<exists>t. trace s = MakeChan (length files) # CloseChan # t"
    using exec_trace[of w g sched "start g files"] assms(1,5) by (simp add: start_def)
  have ev: "uploadEvents w f = [CallUpload f, InUpload f Describe]" if "f \<in> set files" for f
    using that assms(1,2,4) selector_files_flag[of f w g args] by (simp add: uploadEvents_dry)
  then have evs: "map (uploadEvents w) files = map (\<lambda>f. [CallUpload f, InUpload f Describe]) files"
    by simp
  have tr: "trace s @ concat (map (uploadEvents w) (toSpawn s))
       = MakeChan (length files) # CloseChan
           # concat (map (\<lambda>f. [CallUpload f, InUpload f Describe]) files)"
    using inv evs by (simp add: dryInv_def)
  have "set (trace s) \<subseteq> set (MakeChan (length files) # CloseChan
           # concat (map (\<lambda>f. [CallUpload f, InUpload f Describe]) files))"
    unfolding tr[symmetric] by simp
  then have c: "Go f \<notin> set (trace s) \<and> InUpload f RemoteCreate \<notin> set (trace s)" for f
    by auto
  have d: "trace s = MakeChan (length files) # CloseChan
                       # concat (map (\<lambda>f. [CallUpload f, InUpload f Describe]) files)"
    if "returned s"
    using tr inv that by (simp add: dryInv_def)
  from a b c d completes_from_start[of w g sched files] show ?thesis by blast
qed

theorem dry_run_spawns_nothing_witness:
  "dryRun dryGlobals
   \<and> fst (snd (getFilesToUpload exampleWorld dryGlobals [''a.txt'', ''missing.txt'', ''big.bin'']))
       = [New ''a.txt'' True]
   \<and> Upload exampleWorld
       = Upload_spec (\<lambda>f. if FilePath f = ''a.txt'' then Some ''create failed'' else None)
   \<and> returned (exec exampleWorld dryGlobals [MainStep, MainStep, MainStep]
         (start dryGlobals [New ''a.txt'' True]))
   \<and> trace (exec exampleWorld dryGlobals [MainStep, MainStep, MainStep]
         (start dryGlobals [New ''a.txt'' True]))
       = [MakeChan 1, CloseChan, CallUpload (New ''a.txt'' True),
          InUpload (New ''a.txt'' True) Describe]"
proof -
  have h1: "dryRun dryGlobals" by (simp add: dryGlobals_def)
  have sel: "fst (snd (getFilesToUpload exampleWorld dryGlobals [''a.txt'', ''missing.txt'', ''big.bin'']))
       = [New ''a.txt'' True]"
    by (simp add: exampleWorld_def dryGlobals_def New_def getFilesToUpload_def checkFile_def
        maxFilesize_def Let_def)
  have h2: "[New ''a.txt'' True]
      = fst (snd (getFilesToUpload exampleWorld dryGlobals [''a.txt'', ''missing.txt'', ''big.bin'']))"
    by (simp only: sel)
  have h3: "[New ''a.txt'' True] \<noteq> []" by simp
  have h4: "Upload exampleWorld
       = Upload_spec (\<lambda>f. if FilePath f = ''a.txt'' then Some ''create failed'' else None)"
    by (simp add: exampleWorld_def)
  have r: "returned (exec exampleWorld dryGlobals [MainStep, MainStep, MainStep]
         (start dryGlobals [New ''a.txt'' True]))"
    by code_simp
  from dry_run_spawns_nothing[OF h1 h2 h3 h4 refl, of "[MainStep, MainStep, MainStep]"] r
  have t: "trace (exec exampleWorld dryGlobals [MainStep, MainStep, MainStep]
         (start dryGlobals [New ''a.txt'' True]))
       = [MakeChan 1, CloseChan, CallUpload (New ''a.txt'' True),
          InUpload (New ''a.txt'' True) Describe]"
    by simp
  from h1 sel h4 r t show ?thesis by blast
qed

text \<open>
  C7, as stated: for every failing outcome the drain loop logs the error of line 137,
  tagged with the display name of the file. This fails when \<^verbatim>\<open>Name()\<close> returns an error:
  lines 132 to 135 log that error and go on to the next outcome. In the world below
  the upload of \<^verbatim>\<open>a.txt\<close> fails and no line tagged with a display name is logged.
\<close>

theorem upload_failure_name_counterexample:
  "\<not> dryRun exampleGlobals
   \<and> snd (Upload namelessWorld (New ''a.txt'' False)) = Some ''create failed''
   \<and> main namelessWorld exampleGlobals [''a.txt'', ''missing.txt'', ''big.bin'']
        [MainStep, TaskUpload 0, TaskSend 0, MainStep, MainStep]
       = ([CallExists (New ''a.txt'' False), CallSize (New ''a.txt'' False),
           CallExists (New ''missing.txt'' False), WarnNotFound ''missing.txt'',
           CallExists (New ''big.bin'' False), CallSize (New ''big.bin'' False),
           WarnTooLarge ''big.bin'' 51200 102400,
           MakeChan 1, Go (New ''a.txt'' False), CallUpload (New ''a.txt'' False),
           InUpload (New ''a.txt'' False) RemoteCreate, CallName (New ''a.txt'' False),
           LogNameError ''bad path''], Exit 0)
   \<and> ErrCreateFailed (fst (Name namelessWorld (New ''a.txt'' False)))
        \<notin> set (fst (main namelessWorld exampleGlobals [''a.txt'', ''missing.txt'', ''big.bin'']
             [MainStep, TaskUpload 0, TaskSend 0, MainStep, MainStep]))"
proof -
  have h1: "\<not> dryRun exampleGlobals" by (simp add: exampleGlobals_def)
  have u: "snd (Upload namelessWorld (New ''a.txt'' False)) = Some ''create failed''"
    by (simp add: namelessWorld_def exampleWorld_def Upload_spec_def New_def)
  have sel: "getFilesToUpload namelessWorld exampleGlobals [''a.txt'', ''missing.txt'', ''big.bin'']
     = ([CallExists (New ''a.txt'' False), CallSize (New ''a.txt'' False),
          CallExists (New ''missing.txt'' False), WarnNotFound ''missing.txt'',
          CallExists (New ''big.bin'' False), CallSize (New ''big.bin'' False),
          WarnTooLarge ''big.bin'' 51200 102400], [New ''a.txt'' False], None)"
    by (simp add: namelessWorld_def exampleWorld_def exampleGlobals_def New_def
        getFilesToUpload_def checkFile_def maxFilesize_def Let_def)
  have r: "returned (exec namelessWorld exampleGlobals
        [MainStep, TaskUpload 0, TaskSend 0, MainStep, MainStep]
        (start exampleGlobals [New ''a.txt'' False]))"
    by code_simp
  have tr: "trace (exec namelessWorld exampleGlobals
        [MainStep, TaskUpload 0, TaskSend 0, MainStep, MainStep]
        (start exampleGlobals [New ''a.txt'' False]))
      = [MakeChan 1, Go (New ''a.txt'' False), CallUpload (New ''a.txt'' False),
           InUpload (New ''a.txt'' False) RemoteCreate, CallName (New ''a.txt'' False),
           LogNameError ''bad path'']"
    by code_simp
  have m: "main namelessWorld exampleGlobals [''a.txt'', ''missing.txt'', ''big.bin'']
        [MainStep, TaskUpload 0, TaskSend 0, MainStep, MainStep]
       = ([CallExists (New ''a.txt'' False), CallSize (New ''a.txt'' False),
           CallExists (New ''missing.txt'' False), WarnNotFound ''missing.txt'',
           CallExists (New ''big.bin'' False), CallSize (New ''big.bin'' False),
           WarnTooLarge ''big.bin'' 51200 102400,
           MakeChan 1, Go (New ''a.txt'' False), CallUpload (New ''a.txt'' False),
           InUpload (New ''a.txt'' False) RemoteCreate, CallName (New ''a.txt'' False),
           LogNameError ''bad path''], Exit 0)"
    using main_dispatch[OF example_check sel, of "[MainStep, TaskUpload 0, TaskSend 0, MainStep, MainStep]"]
    unfolding tr by (simp add: r del: exec_Cons exec_Nil)
  have x: "ErrCreateFailed (fst (Name namelessWorld (New ''a.txt'' False)))
        \<notin> set (fst (main namelessWorld exampleGlobals [''a.txt'', ''missing.txt'', ''big.bin'']
             [MainStep, TaskUpload 0, TaskSend 0, MainStep, MainStep]))"
    unfolding m by simp
  from h1 u m x show ?thesis by (intro conjI)
qed

text \<open>
  C7, amended. Without dry run, once the arguments and the selection have passed: for
  every file whose upload failed the drain loop has logged, when \<^verbatim>\<open>processFiles\<close> has
  returned, the error of line 137 tagged with the display name of the file, or, when the
  display name could not be computed, the error of \<^verbatim>\<open>Name()\<close>; the reports in the trace
  are those of the received outcomes, in the order received, so the loop goes on after
  each of them; every run can be continued until \<^verbatim>\<open>processFiles\<close> returns, with all
  outcomes received; and \<^verbatim>\<open>main\<close> then ends with status 0, whatever the uploads
  returned.
\<close>

theorem upload_failures_logged:
  assumes "\<not> dryRun g"
    and "checkForArgumentErrors g (length args) = (tr1, Continue ())"
    and "getFilesToUpload w g args = (tr2, files, None)"
    and "s = exec w g sched (start g files)"
  shows "main w g args sched = (tr1 @ tr2 @ trace s, if returned s then Exit 0 else Running)
     \<and> filter isReport (trace s) = concat (map (report w) (received s))
     \<and> (returned s \<longrightarrow> length (received s) = length files
           \<and> (\<forall>f \<in> set files. \<forall>e. snd (Upload w f) = Some e \<longrightarrow>
                 (case Name w f of
                    (fname, None) \<Rightarrow> ErrCreateFailed fname \<in> set (trace s)
                  | (fname, Some err) \<Rightarrow> LogNameError err \<in> set (trace s))))
     \<and> (\<exists>sched'. returned (exec w g (sched @ sched') (start g files)))"
proof -
  have inv: "uploadInv w files s"
    using runInv_reach[of w g files sched] assms(1,4) by (simp add: runInv_def)
  have tinv: "traceInv w g files s"
    using traceInv_reach[of w g files sched] assms(4) by simp
  have a: "main w g args sched = (tr1 @ tr2 @ trace s, if returned s then Exit 0 else Running)"
    using main_dispatch[OF assms(2,3), of sched] assms(4) by simp
  have b: "filter isReport (trace s) = concat (map (report w) (received s))"
    using tinv by (simp add: traceInv_def)
  have c: "length (received s) = length files" if "returned s"
    using upload_at_return(1)[OF inv that] .
  have d: "case Name w f of
             (fname, None) \<Rightarrow> ErrCreateFailed fname \<in> set (trace s)
           | (fname, Some err) \<Rightarrow> LogNameError err \<in> set (trace s)"
    if "returned s" "f \<in> set files" "snd (Upload w f) = Some e" for f e
  proof -
    from upload_at_return(5)[OF inv that(1)] have "set (received s) = set (map (outcomeOf w) files)"
      by (rule mset_eq_setD)
    with that(2) have "outcomeOf w f \<in> set (received s)" by simp
    then have "set (report w (outcomeOf w f)) \<subseteq> set (concat (map (report w) (received s)))"
      by auto
    then have sub: "set (report w (outcomeOf w f)) \<subseteq> set (trace s)"
      unfolding b[symmetric] by auto
    show ?thesis
    proof (cases "Name w f")
      case (Pair fname r)
      with sub report_failed[OF that(3)] show ?thesis by (cases r) simp_all
    qed
  qed
  have cd: "returned s \<longrightarrow> length (received s) = length files
           \<and> (\<forall>f \<in> set files. \<forall>e. snd (Upload w f) = Some e \<longrightarrow>
                 (case Name w f of
                    (fname, None) \<Rightarrow> ErrCreateFailed fname \<in> set (trace s)
                  | (fname, Some err) \<Rightarrow> LogNameError err \<in> set (trace s)))"
    by (intro impI conjI ballI allI) (rule c, assumption, rule d, assumption+)
  from a b cd completes_from_start[of w g sched files] show ?thesis
    by (intro conjI) assumption+
qed

theorem upload_failures_logged_witness:
  "\<not> dryRun exampleGlobals
   \<and> snd (Upload exampleWorld (New ''a.txt'' False)) = Some ''create failed''
   \<and> Name exampleWorld (New ''a.txt'' False) = (''a.txt'', None)
   \<and> returned (exec exampleWorld exampleGlobals
        [MainStep, TaskUpload 0, TaskSend 0, MainStep, MainStep]
        (start exampleGlobals [New ''a.txt'' False]))
   \<and> ErrCreateFailed ''a.txt'' \<in> set (trace (exec exampleWorld exampleGlobals
        [MainStep, TaskUpload 0, TaskSend 0, MainStep, MainStep]
        (start exampleGlobals [New ''a.txt'' False])))
   \<and> snd (main exampleWorld exampleGlobals [''a.txt'', ''missing.txt'', ''big.bin'']
        [MainStep, TaskUpload 0, TaskSend 0, MainStep, MainStep]) = Exit 0"
proof -
  have h1: "\<not> dryRun exampleGlobals" by (simp add: exampleGlobals_def)
  have u: "snd (Upload exampleWorld (New ''a.txt'' False)) = Some ''create failed''"
    by (simp add: exampleWorld_def Upload_spec_def New_def)
  have n: "Name exampleWorld (New ''a.txt'' False) = (''a.txt'', None)"
    by (simp add: exampleWorld_def New_def)
  have r: "returned (exec exampleWorld exampleGlobals
        [MainStep, TaskUpload 0, TaskSend 0, MainStep, MainStep]
        (start exampleGlobals [New ''a.txt'' False]))"
    by code_simp
  note t = upload_failures_logged[OF h1 example_check example_selected refl,
      of "[MainStep, TaskUpload 0, TaskSend 0, MainStep, MainStep]"]
  from t r have st: "snd (main exampleWorld exampleGlobals [''a.txt'', ''missing.txt'', ''big.bin'']
        [MainStep, TaskUpload 0, TaskSend 0, MainStep, MainStep]) = Exit 0"
    by simp
  from t r have "\<forall>f \<in> set [New ''a.txt'' False]. \<forall>e. snd (Upload exampleWorld f) = Some e \<longrightarrow>
       (case Name exampleWorld f of
          (fname, None) \<Rightarrow> ErrCreateFailed fname \<in> set (trace (exec exampleWorld exampleGlobals
              [MainStep, TaskUpload 0, TaskSend 0, MainStep, MainStep]
              (start exampleGlobals [New ''a.txt'' False])))
        | (fname, Some err) \<Rightarrow> LogNameError err \<in> set (trace (exec exampleWorld exampleGlobals
              [MainStep, TaskUpload 0, TaskSend 0, MainStep, MainStep]
              (start exampleGlobals [New ''a.txt'' False]))))"
    by (elim conjE) (erule (1) impE, elim conjE, assumption)
  with u n have l: "ErrCreateFailed ''a.txt'' \<in> set (trace (exec exampleWorld exampleGlobals
        [MainStep, TaskUpload 0, TaskSend 0, MainStep, MainStep]
        (start exampleGlobals [New ''a.txt'' False])))"
    by simp
  from h1 u n r l st show ?thesis by (intro conjI)
qed

end
